theory Spec2Isabelle
  imports Complex_Main "HOL-Library.Sublist"
begin

section \<open>Data model (types.ts)\<close>

text \<open>
  JavaScript numbers are modelled by their mathematical value: \<open>number\<close> is the type of
  rationals, which contains every finite double. Optional properties (\<open>p?: T\<close>) are
  \<open>T option\<close>, with \<open>None\<close> for an absent (\<open>undefined\<close>) property, so two values are equal
  here exactly when their JSON serialisations are.
\<close>

type_synonym number = rat

subsection \<open>Binary64 arithmetic\<close>

text \<open>
  A number literal, a sum and a product are the double nearest to the exact value, ties going
  to the even significand. \<open>binaryExponent x\<close> is the \<open>e\<close> with \<open>2^e \<le> x < 2^(e+1)\<close> for a
  positive \<open>x\<close>; a double with that exponent is a multiple of \<open>2^(e-52)\<close>, and of \<open>2^(-1074)\<close>
  in the subnormal range.
\<close>

function bitLength :: "int \<Rightarrow> int" where
  "bitLength n = (if n \<le> 0 then 0 else 1 + bitLength (n div 2))"
  by pat_completeness auto

termination bitLength
  by (relation "measure nat") auto

declare bitLength.simps [simp del]

definition pow2 :: "int \<Rightarrow> rat" where
  "pow2 e = (if 0 \<le> e then 2 ^ nat e else 1 / 2 ^ nat (- e))"

definition binaryExponent :: "rat \<Rightarrow> int" where
  "binaryExponent x =
     (let e = bitLength (fst (quotient_of x)) - bitLength (snd (quotient_of x))
      in if pow2 e \<le> x then e else e - 1)"

definition roundHalfEven :: "rat \<Rightarrow> int" where
  "roundHalfEven x =
     (let f = \<lfloor>x\<rfloor>; r = x - of_int f
      in if r < 1 / 2 then f else if 1 / 2 < r then f + 1 else if even f then f else f + 1)"

definition roundToDouble :: "rat \<Rightarrow> number" where
  "roundToDouble x =
     (if x = 0 then 0
      else (let a = \<bar>x\<bar>; ulp = pow2 (max (binaryExponent a) (- 1022) - 52)
            in sgn x * of_int (roundHalfEven (a / ulp)) * ulp))"

text \<open>
  A value rounds to \<open>Infinity\<close> from \<open>2^1024 - 2^970\<close> on, half a unit above the largest
  double.
\<close>

definition overflows :: "rat \<Rightarrow> bool" where
  "overflows x = (pow2 1024 - pow2 970 \<le> \<bar>x\<bar>)"

definition doubleAdd :: "number \<Rightarrow> number \<Rightarrow> number" where
  "doubleAdd a b = roundToDouble (a + b)"

definition doubleMul :: "number \<Rightarrow> number \<Rightarrow> number" where
  "doubleMul a b = roundToDouble (a * b)"

datatype FieldType = Quantitative | Nominal | Ordinal | Temporal

datatype AggregateOp =
  AggSum | AggMean | AggMedian | AggCount | AggMin | AggMax | AggDistinct
  | AggQ1 | AggQ3 | AggVariance | AggStdev

datatype TimeUnit =
  TuYear | TuMonth | TuYearmonth | TuDate | TuHours | TuDay | TuYearmonthdate

datatype SortOrder = Ascending | Descending

text \<open>\<open>sort?: SortOrder | { field: string; order: SortOrder }\<close>\<close>

datatype SortSpec = SortBy SortOrder | SortByField string SortOrder

text \<open>\<open>bin?: boolean | { maxbins?: number }\<close>\<close>

datatype BinSpec = BinFlag bool | BinParams "number option"

text \<open>
  Values of type \<open>any\<close>: cells of data rows and entries of a scale domain. They are the values
  that JSON and CSV data hold, with dates, non-finite numbers and built-in functions; each
  carries what \<open>String(v)\<close> depends on. An array has no holes, and an object is a plain one,
  given by its own enumerable properties in the order of \<open>Object.keys\<close>.
\<close>

datatype nonFinite = NaN | PlusInfinity | MinusInfinity

datatype jsval =
  JNull | JUndefined
  | JNum number                      \<comment> \<open>a finite number\<close>
  | JNonFinite nonFinite
  | JStr string
  | JBool bool
  | JDate "number option"            \<comment> \<open>a \<open>Date\<close> with its time value, \<open>None\<close> for an invalid date\<close>
  | JArray "jsval list"
  | JObject "(string \<times> jsval) list"
  | JFunction string                 \<comment> \<open>a built-in function, by its name\<close>

record ScaleConfig =
  sc_domain :: "jsval list option"
  sc_range :: "jsval list option"
  sc_scheme :: "string option"
  sc_reverse :: "bool option"
  sc_zero :: "bool option"

record AxisConfig =
  ax_title :: "string option"
  ax_format :: "string option"
  ax_grid :: "bool option"
  ax_labelAngle :: "number option"
  ax_labelFontSize :: "number option"
  ax_titleFontSize :: "number option"

datatype LegendOrient = OrientLeft | OrientRight | OrientTop | OrientBottom | OrientNone

record LegendConfig =
  lg_title :: "string option"
  lg_orient :: "LegendOrient option"
  lg_labelFontSize :: "number option"
  lg_titleFontSize :: "number option"

record EncodingConfig =
  ec_field :: "string option"
  ec_type :: "FieldType option"
  ec_aggregate :: "AggregateOp option"
  ec_sort :: "SortSpec option"
  ec_scale :: "ScaleConfig option"
  ec_timeUnit :: "TimeUnit option"
  ec_bin :: "BinSpec option"
  ec_axis :: "AxisConfig option"
  ec_legend :: "LegendConfig option"

text \<open>
  \<open>StackMode = 'zero' | 'normalize' | null\<close>, in an optional property: the property is
  absent (\<open>None\<close>), \<open>null\<close> (\<open>Some Null\<close>) or one of the two modes.
\<close>

datatype StackMode = Zero | Normalize

datatype 'a nullable = Null | Val 'a

datatype Interpolate =
  Linear | Step | StepBefore | StepAfter | Basis | Cardinal | Monotone

text \<open>
  The mark type is kept as the string the code compares (\<open>'bar'\<close>, \<open>'line'\<close>, ...): the
  planner and the decompiler both store strings they have not checked against the
  \<open>MarkType\<close> union.
\<close>

record MarkConfig =
  mk_type :: string
  mk_point :: "bool option"
  mk_stacked :: "StackMode nullable option"
  mk_opacity :: "number option"
  mk_size :: "number option"
  mk_strokeWidth :: "number option"
  mk_interpolate :: "Interpolate option"

datatype ChartTransform =
  TransformFilter string                       \<comment> \<open>\<open>expr\<close>\<close>
  | TransformTopN int string SortOrder         \<comment> \<open>\<open>n\<close>, \<open>byField\<close>, \<open>order\<close>\<close>
  | TransformCalculate string string           \<comment> \<open>\<open>calculate\<close>, \<open>as\<close>\<close>
  | TransformAggregate "string list option" "AggregateOp list" "string list" "string list"
      \<comment> \<open>\<open>groupby\<close>, \<open>ops\<close>, \<open>fields\<close>, \<open>as\<close>\<close>

text \<open>\<open>tooltip?: EncodingConfig[] | 'auto' | 'none'\<close>\<close>

datatype Tooltip = TooltipAuto | TooltipNone | TooltipList "EncodingConfig list"

record Encodings =
  en_x :: "EncodingConfig option"
  en_y :: "EncodingConfig option"
  en_color :: "EncodingConfig option"
  en_size :: "EncodingConfig option"
  en_tooltip :: "Tooltip option"

text \<open>\<open>width?: number | 'container'\<close>\<close>

datatype Dimension = Pixels number | Container

datatype Padding = PadAll number | PadSides "number option" "number option" "number option" "number option"

record BuilderState =
  bs_mark :: MarkConfig
  bs_encodings :: Encodings
  bs_transforms :: "ChartTransform list"
  bs_width :: "Dimension option"
  bs_height :: "Dimension option"
  bs_title :: "string option"
  bs_description :: "string option"
  bs_background :: "string option"
  bs_padding :: "Padding option"

text \<open>
  \<open>Partial<BuilderState>\<close>, as the decompiler and \<open>setBuilderState\<close> use it: every property
  optional. For the three properties that are optional in \<open>BuilderState\<close> already, the outer
  \<open>option\<close> says whether the key is present and the inner one is its value.
\<close>

record PartialBuilderState =
  pb_mark :: "MarkConfig option"
  pb_encodings :: "Encodings option"
  pb_transforms :: "ChartTransform list option"
  pb_width :: "Dimension option"
  pb_height :: "Dimension option"
  pb_title :: "string option option"
  pb_description :: "string option"
  pb_background :: "string option"
  pb_padding :: "Padding option"

record FieldStats =
  fs_min :: "number option"
  fs_max :: "number option"
  fs_unique :: nat
  fs_nulls :: nat
  fs_topValues :: "(string \<times> nat) list option"

record DataField =
  df_name :: string
  df_inferredType :: FieldType
  df_stats :: FieldStats

section \<open>The declarative spec, as far as the code reads or writes it\<close>

text \<open>
  A channel descriptor of the spec. \<open>cd_stack\<close> is \<open>None\<close> for an absent or falsy
  \<open>stack\<close> property, which the code does not tell apart; \<open>cd_format\<close> is the \<open>format\<close> of a
  tooltip entry.
\<close>

record ChannelDef =
  cd_field :: "string option"
  cd_type :: "FieldType option"
  cd_aggregate :: "AggregateOp option"
  cd_bin :: "BinSpec option"
  cd_timeUnit :: "TimeUnit option"
  cd_sort :: "SortSpec option"
  cd_scale :: "ScaleConfig option"
  cd_axis :: "AxisConfig option"
  cd_legend :: "LegendConfig option"
  cd_stack :: "StackMode option"
  cd_format :: "string option"

datatype TooltipDef = TooltipArray "ChannelDef list" | TooltipSingle ChannelDef

record EncodingDef =
  ed_x :: "ChannelDef option"
  ed_y :: "ChannelDef option"
  ed_color :: "ChannelDef option"
  ed_size :: "ChannelDef option"
  ed_tooltip :: "TooltipDef option"

record MarkDef =
  md_type :: string
  md_tooltip :: "bool option"
  md_point :: "bool option"
  md_opacity :: "number option"
  md_size :: "number option"
  md_strokeWidth :: "number option"
  md_interpolate :: "Interpolate option"

text \<open>\<open>mark\<close> is a mark name or a mark definition object.\<close>

datatype MarkSpec = MarkName string | MarkObject MarkDef

datatype VLTransform =
  VLFilter string                                             \<comment> \<open>\<open>{filter}\<close>\<close>
  | VLWindow "(string \<times> string) list" "(string \<times> SortOrder) list"
      \<comment> \<open>\<open>{window: [{op, as}], sort: [{field, order}]}\<close>\<close>
  | VLCalculate string string                                 \<comment> \<open>\<open>{calculate, as}\<close>\<close>
  | VLAggregate "(AggregateOp \<times> string option \<times> string option) list" "string list option"
      \<comment> \<open>\<open>{aggregate: [{op, field, as}], groupby}\<close>\<close>

text \<open>\<open>width\<close> of a spec: a number, or something else (\<open>"container"\<close>, a step object).\<close>

datatype SpecSize = SizeNumber number | SizeOther

text \<open>\<open>title\<close> of a spec: a string, or a title object with its \<open>text\<close>.\<close>

datatype TitleSpec = TitleText string | TitleObject "string option"

datatype DataSpec = DataName string | DataUrl string | DataValues "(string \<times> jsval) list list"

text \<open>A subtree of the spec that the code only tests for presence (an object or an array).\<close>

datatype opaque = Opaque

record ViewConfig =
  vc_continuousWidth :: "number option"
  vc_continuousHeight :: "number option"

record AxisDefaults =
  ad_labelFontSize :: "number option"
  ad_titleFontSize :: "number option"

record SpecConfig =
  cf_view :: "ViewConfig option"
  cf_axis :: "AxisDefaults option"

record VLSpec =
  sp_schema :: "string option"
  sp_width :: "SpecSize option"
  sp_height :: "SpecSize option"
  sp_data :: "DataSpec option"
  sp_mark :: "MarkSpec option"
  sp_encoding :: "EncodingDef option"
  sp_config :: "SpecConfig option"
  sp_transform :: "VLTransform list option"
  sp_title :: "TitleSpec option"
  sp_description :: "string option"
  sp_background :: "string option"
  sp_padding :: "Padding option"
  sp_facet :: "opaque option"
  sp_layer :: "opaque list option"
  sp_hconcat :: "opaque list option"
  sp_vconcat :: "opaque list option"
  sp_repeat :: "opaque option"

text \<open>Truthiness of a string: the empty string is falsy.\<close>

definition truthy :: "string option \<Rightarrow> bool" where
  "truthy s = (case s of None \<Rightarrow> False | Some t \<Rightarrow> t \<noteq> [])"


section \<open>Spec compiler (specBuilder.ts)\<close>

text \<open>
  An integer-valued number as a template literal prints it. Below \<open>2^53\<close> that is its decimal
  notation. From there on it is the shortest decimal \<open>s * 10^z\<close> that reads back as the
  number (of several, the one nearest to it): the digits of \<open>s\<close> followed by \<open>z\<close> zeros when
  these are at most 21 digits, and exponent notation otherwise. \<open>readsBack v k\<close> lists such
  decimals with \<open>k\<close> digits.
\<close>

function decimalDigits :: "int \<Rightarrow> string \<Rightarrow> string" where
  "decimalDigits n acc =
     (if n < 10 then (''0123456789'' ! nat n) # acc
      else decimalDigits (n div 10) ((''0123456789'' ! nat (n mod 10)) # acc))"
  by pat_completeness auto

termination decimalDigits
  by (relation "measure (\<lambda>(n, acc). nat n)") auto

declare decimalDigits.simps [simp del]

definition readsBack :: "int \<Rightarrow> nat \<Rightarrow> (int \<times> nat) list" where
  "readsBack v k =
     filter (\<lambda>(s, z). 10 ^ (k - 1) \<le> s \<and> s < 10 ^ k \<and> roundToDouble (of_int (s * 10 ^ z)) = of_int v)
       (concat (map (\<lambda>n. if k \<le> n
                         then [(v div 10 ^ (n - k), n - k), (v div 10 ^ (n - k) + 1, n - k)]
                         else [])
          [length (decimalDigits v []), length (decimalDigits v []) + 1]))"

fun shortestFrom :: "int \<Rightarrow> nat \<Rightarrow> nat \<Rightarrow> (int \<times> nat) list" where
  "shortestFrom v k 0 = []"
| "shortestFrom v k (Suc tries) =
     (case readsBack v k of [] \<Rightarrow> shortestFrom v (Suc k) tries | c # cs \<Rightarrow> c # cs)"

definition closer :: "int \<Rightarrow> int \<times> nat \<Rightarrow> int \<times> nat \<Rightarrow> int \<times> nat" where
  "closer v a b =
     (if \<bar>fst b * 10 ^ snd b - v\<bar> < \<bar>fst a * 10 ^ snd a - v\<bar>
         \<or> (\<bar>fst b * 10 ^ snd b - v\<bar> = \<bar>fst a * 10 ^ snd a - v\<bar> \<and> even (fst b))
      then b else a)"

definition showNatural :: "int \<Rightarrow> string" where
  "showNatural v =
     (if v < 2 ^ 53 then decimalDigits v []
      else (case shortestFrom v 1 17 of
              [] \<Rightarrow> decimalDigits v []
            | c # cs \<Rightarrow>
                (let best = foldl (closer v) c cs;
                     ds = decimalDigits (fst best) [];
                     n = length ds + snd best
                 in if n \<le> 21 then ds @ replicate (snd best) CHR ''0''
                    else (case ds of
                            [] \<Rightarrow> []
                          | d # rest \<Rightarrow> d # (if rest = [] then [] else CHR ''.'' # rest))
                         @ ''e+'' @ decimalDigits (int n - 1) [])))"

definition showInt :: "int \<Rightarrow> string" where
  "showInt i = (if 0 \<le> i then showNatural i else CHR ''-'' # showNatural (- i))"

definition buildEncodingChannel :: "EncodingConfig \<Rightarrow> ChannelDef" where
  "buildEncodingChannel config =
     \<lparr> cd_field = ec_field config,
       cd_type = ec_type config,
       cd_aggregate = ec_aggregate config,
       cd_bin = ec_bin config,
       cd_timeUnit = ec_timeUnit config,
       cd_sort = ec_sort config,
       cd_scale = ec_scale config,
       cd_axis = (case ec_axis config of
           None \<Rightarrow> None
         | Some a \<Rightarrow> Some \<lparr> ax_title = ax_title a, ax_format = ax_format a, ax_grid = ax_grid a,
               ax_labelAngle = ax_labelAngle a, ax_labelFontSize = ax_labelFontSize a,
               ax_titleFontSize = ax_titleFontSize a \<rparr>),
       cd_legend = (case ec_legend config of
           None \<Rightarrow> None
         | Some l \<Rightarrow> Some \<lparr> lg_title = lg_title l, lg_orient = lg_orient l,
               lg_labelFontSize = lg_labelFontSize l, lg_titleFontSize = lg_titleFontSize l \<rparr>),
       cd_stack = None,
       cd_format = None \<rparr>"

text \<open>\<open>t.fields[i]\<close>: \<open>undefined\<close> past the end of the array.\<close>

definition at_index :: "'a list \<Rightarrow> nat \<Rightarrow> 'a option" where
  "at_index xs i = (if i < length xs then Some (xs ! i) else None)"

fun buildTransform :: "ChartTransform \<Rightarrow> VLTransform list" where
  "buildTransform (TransformFilter expr) = [VLFilter expr]"
| "buildTransform (TransformTopN n byField order) =
     [VLWindow [(''rank'', ''__rank__'')] [(byField, order)],
      VLFilter (''datum.__rank__ <= '' @ showInt n)]"
| "buildTransform (TransformCalculate calc as) = [VLCalculate calc as]"
| "buildTransform (TransformAggregate groupby ops flds as) =
     [VLAggregate (map (\<lambda>(op, i). (op, at_index flds i, at_index as i)) (zip ops [0 ..< length ops]))
        groupby]"

definition buildTransforms :: "ChartTransform list \<Rightarrow> VLTransform list" where
  "buildTransforms transforms = concat (map buildTransform transforms)"

text \<open>A channel is compiled only when its \<open>field\<close> is truthy (\<open>state.encodings.x?.field\<close>).\<close>

definition buildChannel :: "EncodingConfig option \<Rightarrow> ChannelDef option" where
  "buildChannel c = (case c of
       None \<Rightarrow> None
     | Some config \<Rightarrow> if truthy (ec_field config) then Some (buildEncodingChannel config) else None)"

definition emptyChannelDef :: ChannelDef where
  "emptyChannelDef =
     \<lparr> cd_field = None, cd_type = None, cd_aggregate = None, cd_bin = None, cd_timeUnit = None,
       cd_sort = None, cd_scale = None, cd_axis = None, cd_legend = None, cd_stack = None,
       cd_format = None \<rparr>"

definition buildTooltip :: "Tooltip option \<Rightarrow> DataField list \<Rightarrow> TooltipDef option" where
  "buildTooltip tooltip dataFields = (case tooltip of
       Some TooltipAuto \<Rightarrow>
         Some (TooltipArray (map (\<lambda>f. emptyChannelDef
                 \<lparr> cd_field := Some (df_name f), cd_type := Some (df_inferredType f) \<rparr>)
               (take 6 dataFields)))
     | Some (TooltipList ts) \<Rightarrow>
         Some (TooltipArray (map (\<lambda>t. emptyChannelDef
                 \<lparr> cd_field := ec_field t, cd_type := ec_type t, cd_aggregate := ec_aggregate t,
                   cd_format := (case ec_axis t of None \<Rightarrow> None | Some a \<Rightarrow> ax_format a) \<rparr>)
               ts))
     | _ \<Rightarrow> None)"

text \<open>
  Stacking for bar/area marks: \<open>qChan\<close> is \<open>y\<close> when the compiled \<open>y\<close> channel is quantitative,
  else \<open>x\<close> when the compiled \<open>x\<close> channel is, else \<open>null\<close>.
\<close>

definition isQuantitative :: "ChannelDef option \<Rightarrow> bool" where
  "isQuantitative c = (case c of None \<Rightarrow> False | Some d \<Rightarrow> cd_type d = Some Quantitative)"

definition attachStack :: "MarkConfig \<Rightarrow> EncodingDef \<Rightarrow> EncodingDef" where
  "attachStack mark encoding = (case mk_stacked mark of
       Some (Val stacked) \<Rightarrow>
         if mk_type mark = ''bar'' \<or> mk_type mark = ''area'' then
           if isQuantitative (ed_y encoding) then
             encoding \<lparr> ed_y := map_option (\<lambda>d. d \<lparr> cd_stack := Some stacked \<rparr>) (ed_y encoding) \<rparr>
           else if isQuantitative (ed_x encoding) then
             encoding \<lparr> ed_x := map_option (\<lambda>d. d \<lparr> cd_stack := Some stacked \<rparr>) (ed_x encoding) \<rparr>
           else encoding
         else encoding
     | _ \<Rightarrow> encoding)"

definition buildSpec :: "BuilderState \<Rightarrow> DataField list \<Rightarrow> VLSpec" where
  "buildSpec state dataFields =
     (let transforms = buildTransforms (bs_transforms state);
          encoding =
            \<lparr> ed_x = buildChannel (en_x (bs_encodings state)),
              ed_y = buildChannel (en_y (bs_encodings state)),
              ed_color = buildChannel (en_color (bs_encodings state)),
              ed_size = buildChannel (en_size (bs_encodings state)),
              ed_tooltip = buildTooltip (en_tooltip (bs_encodings state)) dataFields \<rparr>;
          mark =
            \<lparr> md_type = mk_type (bs_mark state),
              md_tooltip = Some True,
              md_point = mk_point (bs_mark state),
              md_opacity = mk_opacity (bs_mark state),
              md_size = mk_size (bs_mark state),
              md_strokeWidth = mk_strokeWidth (bs_mark state),
              md_interpolate =
                (if mk_type (bs_mark state) = ''line'' \<or> mk_type (bs_mark state) = ''area''
                 then mk_interpolate (bs_mark state) else None) \<rparr>
      in \<lparr> sp_schema = Some ''https://vega.github.io/schema/vega-lite/v5.json'',
           sp_width = (case bs_width state of Some (Pixels w) \<Rightarrow> Some (SizeNumber w) | _ \<Rightarrow> None),
           sp_height = (case bs_height state of Some (Pixels h) \<Rightarrow> Some (SizeNumber h) | _ \<Rightarrow> None),
           sp_data = Some (DataName ''table''),
           sp_mark = Some (MarkObject mark),
           sp_encoding = Some (attachStack (bs_mark state) encoding),
           sp_config = Some
             \<lparr> cf_view = Some
                 \<lparr> vc_continuousWidth = (if bs_width state = Some Container then None else Some 400),
                   vc_continuousHeight = (if bs_height state = Some Container then None else Some 300) \<rparr>,
               cf_axis = Some \<lparr> ad_labelFontSize = Some 11, ad_titleFontSize = Some 12 \<rparr> \<rparr>,
           sp_transform = (if length transforms > 0 then Some transforms else None),
           sp_title = (if truthy (bs_title state) then map_option TitleText (bs_title state) else None),
           sp_description = (if truthy (bs_description state) then bs_description state else None),
           sp_background = (if truthy (bs_background state) then bs_background state else None),
           sp_padding = bs_padding state,
           sp_facet = None, sp_layer = None, sp_hconcat = None, sp_vconcat = None,
           sp_repeat = None \<rparr>)"

definition emptyEncodings :: Encodings where
  "emptyEncodings = \<lparr> en_x = None, en_y = None, en_color = None, en_size = None, en_tooltip = None \<rparr>"

definition getDefaultBuilderState :: BuilderState where
  "getDefaultBuilderState =
     \<lparr> bs_mark = \<lparr> mk_type = ''bar'', mk_point = None, mk_stacked = Some Null, mk_opacity = None,
           mk_size = None, mk_strokeWidth = None, mk_interpolate = None \<rparr>,
       bs_encodings = emptyEncodings \<lparr> en_tooltip := Some TooltipAuto \<rparr>,
       bs_transforms = [],
       bs_width = Some Container,
       bs_height = Some (Pixels 360),
       bs_title = None, bs_description = None, bs_background = None, bs_padding = None \<rparr>"

section \<open>Spec decompiler (specParser.ts)\<close>

definition parseEncodingChannel :: "ChannelDef \<Rightarrow> EncodingConfig" where
  "parseEncodingChannel channel =
     \<lparr> ec_field = (if truthy (cd_field channel) then cd_field channel else None),
       ec_type = cd_type channel,
       ec_aggregate = cd_aggregate channel,
       ec_sort = cd_sort channel,
       ec_scale = (case cd_scale channel of
           None \<Rightarrow> None
         | Some s \<Rightarrow> Some \<lparr> sc_domain = sc_domain s, sc_range = sc_range s, sc_scheme = sc_scheme s,
               sc_reverse = sc_reverse s, sc_zero = sc_zero s \<rparr>),
       ec_timeUnit = cd_timeUnit channel,
       ec_bin = cd_bin channel,
       ec_axis = (case cd_axis channel of
           None \<Rightarrow> None
         | Some a \<Rightarrow> Some \<lparr> ax_title = ax_title a, ax_format = ax_format a, ax_grid = ax_grid a,
               ax_labelAngle = ax_labelAngle a, ax_labelFontSize = ax_labelFontSize a,
               ax_titleFontSize = ax_titleFontSize a \<rparr>),
       ec_legend = (case cd_legend channel of
           None \<Rightarrow> None
         | Some l \<Rightarrow> Some \<lparr> lg_title = lg_title l, lg_orient = lg_orient l,
               lg_labelFontSize = lg_labelFontSize l, lg_titleFontSize = lg_titleFontSize l \<rparr>) \<rparr>"

text \<open>\<open>yEnc?.stack\<close> of an optional encoding block.\<close>

definition stackOf :: "ChannelDef option \<Rightarrow> StackMode option" where
  "stackOf c = (case c of None \<Rightarrow> None | Some d \<Rightarrow> cd_stack d)"

definition parseMark :: "VLSpec \<Rightarrow> MarkConfig option" where
  "parseMark spec = (case sp_mark spec of
       None \<Rightarrow> None
     | Some (MarkName n) \<Rightarrow>
         if n = [] then None
         else Some \<lparr> mk_type = n, mk_point = None,
                mk_stacked = (case sp_encoding spec of
                    None \<Rightarrow> Some Null
                  | Some e \<Rightarrow> (case stackOf (ed_y e) of
                        Some s \<Rightarrow> Some (Val s)
                      | None \<Rightarrow> (case stackOf (ed_x e) of Some s \<Rightarrow> Some (Val s) | None \<Rightarrow> Some Null))),
                mk_opacity = None, mk_size = None, mk_strokeWidth = None, mk_interpolate = None \<rparr>
     | Some (MarkObject markConfig) \<Rightarrow>
         Some \<lparr> mk_type = md_type markConfig, mk_point = md_point markConfig,
                mk_stacked = (case sp_encoding spec of
                    None \<Rightarrow> Some Null
                  | Some e \<Rightarrow> (case stackOf (ed_y e) of
                        Some s \<Rightarrow> Some (Val s)
                      | None \<Rightarrow> (case stackOf (ed_x e) of Some s \<Rightarrow> Some (Val s) | None \<Rightarrow> Some Null))),
                mk_opacity = None, mk_size = None, mk_strokeWidth = None, mk_interpolate = None \<rparr>)"

definition parseEncodings :: "VLSpec \<Rightarrow> Encodings" where
  "parseEncodings spec = (case sp_encoding spec of
       None \<Rightarrow> emptyEncodings
     | Some encoding \<Rightarrow>
         \<lparr> en_x = map_option parseEncodingChannel (ed_x encoding),
           en_y = map_option parseEncodingChannel (ed_y encoding),
           en_color = map_option parseEncodingChannel (ed_color encoding),
           en_size = map_option parseEncodingChannel (ed_size encoding),
           en_tooltip = (case ed_tooltip encoding of
               None \<Rightarrow> None
             | Some (TooltipArray ts) \<Rightarrow> Some (TooltipList (map parseEncodingChannel ts))
             | Some (TooltipSingle t) \<Rightarrow> Some TooltipAuto) \<rparr>)"

text \<open>Only \<open>filter\<close> and \<open>calculate\<close> entries with a truthy expression are read back.\<close>

fun parseTransform :: "VLTransform \<Rightarrow> ChartTransform list" where
  "parseTransform (VLFilter expr) = (if expr \<noteq> [] then [TransformFilter expr] else [])"
| "parseTransform (VLCalculate calc as) = (if calc \<noteq> [] then [TransformCalculate calc as] else [])"
| "parseTransform _ = []"

definition parseSpecToBuilderState :: "VLSpec \<Rightarrow> PartialBuilderState" where
  "parseSpecToBuilderState spec =
     \<lparr> pb_mark = parseMark spec,
       pb_encodings = Some (parseEncodings spec),
       pb_transforms = Some (case sp_transform spec of
           None \<Rightarrow> []
         | Some ts \<Rightarrow> concat (map parseTransform ts)),
       pb_width = (case sp_width spec of
           Some (SizeNumber w) \<Rightarrow> Some (Pixels w)
         | None \<Rightarrow> Some Container
         | Some SizeOther \<Rightarrow> None),
       pb_height = (case sp_height spec of
           Some (SizeNumber h) \<Rightarrow> Some (Pixels h)
         | None \<Rightarrow> Some Container
         | Some SizeOther \<Rightarrow> None),
       pb_title = (case sp_title spec of
           None \<Rightarrow> None
         | Some (TitleText t) \<Rightarrow> if t \<noteq> [] then Some (Some t) else None
         | Some (TitleObject text) \<Rightarrow> Some text),
       pb_description = (if truthy (sp_description spec) then sp_description spec else None),
       pb_background = (if truthy (sp_background spec) then sp_background spec else None),
       pb_padding = None \<rparr>"

text \<open>
  The object the decompiler returns, read as a \<open>BuilderState\<close>: possible when it has its
  \<open>mark\<close>, \<open>encodings\<close> and \<open>transforms\<close> (the compiler dereferences all three).
\<close>

definition asBuilderState :: "PartialBuilderState \<Rightarrow> BuilderState option" where
  "asBuilderState p = (case (pb_mark p, pb_encodings p, pb_transforms p) of
       (Some m, Some e, Some ts) \<Rightarrow>
         Some \<lparr> bs_mark = m, bs_encodings = e, bs_transforms = ts,
                bs_width = pb_width p, bs_height = pb_height p,
                bs_title = (case pb_title p of None \<Rightarrow> None | Some t \<Rightarrow> t),
                bs_description = pb_description p, bs_background = pb_background p,
                bs_padding = pb_padding p \<rparr>
     | _ \<Rightarrow> None)"

section \<open>Custom-spec classifier (AIPanel.tsx, EncodingsPanel)\<close>

text \<open>
  \<open>!!(facet || layer || hconcat || vconcat || repeat || (transform && transform.length > 3)
  || (data && data.url))\<close>. An object or an array is truthy, so a composition property counts
  when it is present; \<open>data.url\<close> counts when it is a non-empty string.
\<close>

definition isCustomSpec :: "VLSpec \<Rightarrow> bool" where
  "isCustomSpec vegaSpec =
     (sp_facet vegaSpec \<noteq> None \<or> sp_layer vegaSpec \<noteq> None \<or> sp_hconcat vegaSpec \<noteq> None
      \<or> sp_vconcat vegaSpec \<noteq> None \<or> sp_repeat vegaSpec \<noteq> None
      \<or> (case sp_transform vegaSpec of None \<Rightarrow> False | Some ts \<Rightarrow> length ts > 3)
      \<or> (case sp_data vegaSpec of Some (DataUrl url) \<Rightarrow> url \<noteq> [] | _ \<Rightarrow> False))"


section \<open>Edit operations and the plan applier (nlPlanner.ts, applyPlan)\<close>

datatype Channel = ChX | ChY | ChColor | ChSize

text \<open>\<open>options?: Partial<MarkConfig>\<close> of a \<open>set_mark\<close> operation.\<close>

record MarkOptions =
  mo_type :: "string option"
  mo_point :: "bool option"
  mo_stacked :: "StackMode nullable option"
  mo_opacity :: "number option"
  mo_size :: "number option"
  mo_strokeWidth :: "number option"
  mo_interpolate :: "Interpolate option"

text \<open>
  \<open>colors: Record<string, string>\<close> is the list of its entries in the order
  \<open>Object.keys\<close> enumerates them. \<open>UnknownOp\<close> stands for an object whose \<open>op\<close> is none
  of the eleven kinds (the \<open>default\<close> branch of the applier).
\<close>

datatype Operation =
  SetMark string "MarkOptions option"                                  \<comment> \<open>\<open>mark\<close>, \<open>options\<close>\<close>
  | SetEncoding Channel string "FieldType option" "EncodingConfig option"
      \<comment> \<open>\<open>channel\<close>, \<open>field\<close>, \<open>type\<close>, \<open>config\<close>\<close>
  | RemoveEncoding Channel
  | SetSeriesColors "(string \<times> string) list"
  | SetColorScheme string
  | SetTopN int "string option" "SortOrder option"                     \<comment> \<open>\<open>n\<close>, \<open>byField\<close>, \<open>order\<close>\<close>
  | SetSort string "string option" SortOrder                           \<comment> \<open>\<open>channelOrField\<close>, \<open>by\<close>, \<open>order\<close>\<close>
  | AddFilter string
  | SetAggregate Channel AggregateOp
  | SetTitle string
  | SetSize "Dimension option" "Dimension option"
  | UnknownOp string

record ChartEditPlan =
  intentText :: string
  confidence :: number
  operations :: "Operation list"

definition getChannel :: "Encodings \<Rightarrow> Channel \<Rightarrow> EncodingConfig option" where
  "getChannel e c = (case c of ChX \<Rightarrow> en_x e | ChY \<Rightarrow> en_y e | ChColor \<Rightarrow> en_color e | ChSize \<Rightarrow> en_size e)"

definition setChannel :: "Encodings \<Rightarrow> Channel \<Rightarrow> EncodingConfig option \<Rightarrow> Encodings" where
  "setChannel e c v = (case c of
       ChX \<Rightarrow> e \<lparr> en_x := v \<rparr> | ChY \<Rightarrow> e \<lparr> en_y := v \<rparr>
     | ChColor \<Rightarrow> e \<lparr> en_color := v \<rparr> | ChSize \<Rightarrow> e \<lparr> en_size := v \<rparr>)"

definition emptyEncodingConfig :: EncodingConfig where
  "emptyEncodingConfig =
     \<lparr> ec_field = None, ec_type = None, ec_aggregate = None, ec_sort = None, ec_scale = None,
       ec_timeUnit = None, ec_bin = None, ec_axis = None, ec_legend = None \<rparr>"

definition emptyScaleConfig :: ScaleConfig where
  "emptyScaleConfig =
     \<lparr> sc_domain = None, sc_range = None, sc_scheme = None, sc_reverse = None, sc_zero = None \<rparr>"

text \<open>\<open>a ?? b\<close>\<close>

definition orElse :: "'a option \<Rightarrow> 'a option \<Rightarrow> 'a option" where
  "orElse a b = (case a of Some v \<Rightarrow> Some v | None \<Rightarrow> b)"

text \<open>The object spread \<open>{ ...base, ...config }\<close>: the keys present in \<open>config\<close> win.\<close>

definition spreadConfig :: "EncodingConfig \<Rightarrow> EncodingConfig \<Rightarrow> EncodingConfig" where
  "spreadConfig base config =
     \<lparr> ec_field = orElse (ec_field config) (ec_field base),
       ec_type = orElse (ec_type config) (ec_type base),
       ec_aggregate = orElse (ec_aggregate config) (ec_aggregate base),
       ec_sort = orElse (ec_sort config) (ec_sort base),
       ec_scale = orElse (ec_scale config) (ec_scale base),
       ec_timeUnit = orElse (ec_timeUnit config) (ec_timeUnit base),
       ec_bin = orElse (ec_bin config) (ec_bin base),
       ec_axis = orElse (ec_axis config) (ec_axis base),
       ec_legend = orElse (ec_legend config) (ec_legend base) \<rparr>"

text \<open>\<open>dataFields.find((f) => f.name === field)?.inferredType\<close>\<close>

definition getType :: "DataField list \<Rightarrow> string \<Rightarrow> FieldType option" where
  "getType dataFields fld = map_option df_inferredType (find (\<lambda>f. df_name f = fld) dataFields)"

definition isTopN :: "ChartTransform \<Rightarrow> bool" where
  "isTopN t = (case t of TransformTopN _ _ _ \<Rightarrow> True | _ \<Rightarrow> False)"

definition fieldOf :: "EncodingConfig option \<Rightarrow> string option" where
  "fieldOf c = (case c of None \<Rightarrow> None | Some e \<Rightarrow> ec_field e)"

definition withEncodings :: "BuilderState \<Rightarrow> (Encodings \<Rightarrow> Encodings) \<Rightarrow> BuilderState" where
  "withEncodings st f = st \<lparr> bs_encodings := f (bs_encodings st) \<rparr>"

text \<open>The body of the \<open>switch\<close>: one operation applied to \<open>next\<close>.\<close>

fun applyOperation :: "DataField list \<Rightarrow> BuilderState \<Rightarrow> Operation \<Rightarrow> BuilderState" where
  "applyOperation dataFields next (SetMark mark options) =
     (let m0 = (bs_mark next) \<lparr> mk_type := mark \<rparr>;
          m1 = (case options of
                  None \<Rightarrow> m0
                | Some opts \<Rightarrow> (case mo_point opts of None \<Rightarrow> m0 | Some p \<Rightarrow> m0 \<lparr> mk_point := Some p \<rparr>));
          m2 = (case options of
                  None \<Rightarrow> m1
                | Some opts \<Rightarrow> (case mo_stacked opts of None \<Rightarrow> m1 | Some s \<Rightarrow> m1 \<lparr> mk_stacked := Some s \<rparr>))
      in next \<lparr> bs_mark := m2 \<rparr>)"
| "applyOperation dataFields next (SetEncoding channel fld type config) =
     (let t = orElse type (getType dataFields fld);
          prev = (case getChannel (bs_encodings next) channel of None \<Rightarrow> emptyEncodingConfig | Some e \<Rightarrow> e);
          e1 = prev \<lparr> ec_field := Some fld, ec_type := t \<rparr>;
          e2 = (case config of None \<Rightarrow> e1 | Some c \<Rightarrow> spreadConfig e1 c)
      in withEncodings next (\<lambda>e. setChannel e channel (Some e2)))"
| "applyOperation dataFields next (RemoveEncoding channel) =
     withEncodings next (\<lambda>e. setChannel e channel None)"
| "applyOperation dataFields next (SetSeriesColors colors) =
     (let color0 = en_color (bs_encodings next);
          color1 =
            (if color0 = None \<or> \<not> truthy (fieldOf color0) then
               (case find (\<lambda>f. df_inferredType f = Nominal) dataFields of
                  Some nominal \<Rightarrow>
                    Some (emptyEncodingConfig \<lparr> ec_field := Some (df_name nominal), ec_type := Some Nominal \<rparr>)
                | None \<Rightarrow>
                    (case dataFields of
                       f0 # _ \<Rightarrow>
                         Some (emptyEncodingConfig
                           \<lparr> ec_field := Some (df_name f0), ec_type := getType dataFields (df_name f0) \<rparr>)
                     | [] \<Rightarrow> color0))
             else color0);
          color2 =
            (case color1 of
               None \<Rightarrow> None
             | Some c \<Rightarrow>
                 Some (c \<lparr> ec_scale := Some
                   ((case ec_scale c of None \<Rightarrow> emptyScaleConfig | Some s \<Rightarrow> s)
                      \<lparr> sc_domain := Some (map (\<lambda>(k, v). JStr k) colors),
                        sc_range := Some (map (\<lambda>(k, v). JStr v) colors) \<rparr>) \<rparr>))
      in withEncodings next (\<lambda>e. e \<lparr> en_color := color2 \<rparr>))"
| "applyOperation dataFields next (SetColorScheme scheme) =
     (let color0 = en_color (bs_encodings next);
          color1 =
            (if color0 = None then
               (case find (\<lambda>f. df_inferredType f = Nominal) dataFields of
                  Some nominal \<Rightarrow>
                    Some (emptyEncodingConfig \<lparr> ec_field := Some (df_name nominal), ec_type := Some Nominal \<rparr>)
                | None \<Rightarrow> color0)
             else color0);
          color2 =
            (case color1 of
               None \<Rightarrow> None
             | Some c \<Rightarrow>
                 Some (c \<lparr> ec_scale := Some
                   ((case ec_scale c of None \<Rightarrow> emptyScaleConfig | Some s \<Rightarrow> s)
                      \<lparr> sc_scheme := Some scheme \<rparr>) \<rparr>))
      in withEncodings next (\<lambda>e. e \<lparr> en_color := color2 \<rparr>))"
| "applyOperation dataFields next (SetTopN n byField order) =
     (let kept = filter (\<lambda>t. \<not> isTopN t) (bs_transforms next);
          by = (case byField of
                  Some b \<Rightarrow> b
                | None \<Rightarrow> (case fieldOf (en_y (bs_encodings next)) of
                      Some f \<Rightarrow> f
                    | None \<Rightarrow> (case fieldOf (en_x (bs_encodings next)) of Some f \<Rightarrow> f | None \<Rightarrow> [])))
      in if by \<noteq> [] then
           next \<lparr> bs_transforms :=
             kept @ [TransformTopN n by (case order of Some ord \<Rightarrow> ord | None \<Rightarrow> Descending)] \<rparr>
         else next \<lparr> bs_transforms := kept \<rparr>)"
| "applyOperation dataFields next (SetSort channelOrField by order) =
     (if channelOrField = ''x'' \<or> channelOrField = ''y'' then
        (let ch = (if channelOrField = ''x'' then ChX else ChY);
             cur = (case getChannel (bs_encodings next) ch of None \<Rightarrow> emptyEncodingConfig | Some e \<Rightarrow> e);
             sorted = (if truthy by
                       then cur \<lparr> ec_sort := Some (SortByField (case by of Some b \<Rightarrow> b | None \<Rightarrow> []) order) \<rparr>
                       else cur \<lparr> ec_sort := Some (SortBy order) \<rparr>)
         in withEncodings next (\<lambda>e. setChannel e ch (Some sorted)))
      else
        (let cur = (case en_y (bs_encodings next) of None \<Rightarrow> emptyEncodingConfig | Some e \<Rightarrow> e)
         in withEncodings next
              (\<lambda>e. e \<lparr> en_y := Some (cur \<lparr> ec_sort := Some (SortByField channelOrField order) \<rparr>) \<rparr>)))"
| "applyOperation dataFields next (AddFilter expr) =
     next \<lparr> bs_transforms := bs_transforms next @ [TransformFilter expr] \<rparr>"
| "applyOperation dataFields next (SetAggregate channel aggOp) =
     (case getChannel (bs_encodings next) channel of
        None \<Rightarrow> next
      | Some e \<Rightarrow> withEncodings next (\<lambda>es. setChannel es channel (Some (e \<lparr> ec_aggregate := Some aggOp \<rparr>))))"
| "applyOperation dataFields next (SetTitle t) = next \<lparr> bs_title := Some t \<rparr>"
| "applyOperation dataFields next (SetSize w h) =
     (let n1 = (case w of None \<Rightarrow> next | Some d \<Rightarrow> next \<lparr> bs_width := Some d \<rparr>)
      in (case h of None \<Rightarrow> n1 | Some d \<Rightarrow> n1 \<lparr> bs_height := Some d \<rparr>))"
| "applyOperation dataFields next (UnknownOp kind) = next"

text \<open>
  \<open>applyPlan\<close> deep-copies the builder state (the identity on values) and applies the
  operations in list order.
\<close>

definition applyPlan :: "BuilderState \<Rightarrow> ChartEditPlan \<Rightarrow> DataField list \<Rightarrow> BuilderState" where
  "applyPlan builder plan dataFields = foldl (applyOperation dataFields) builder (operations plan)"

section \<open>History manager (widgetStore.ts)\<close>

record StateSnapshot =
  sn_builderState :: BuilderState
  sn_spec :: VLSpec
  sn_timestamp :: nat
  sn_description :: "string option"

text \<open>
  The part of the store that the history actions and the model mutations read or write. The
  data rows, the active tab, the validation errors and the AI command text are left untouched by
  all of them.
\<close>

record WidgetState =
  ws_dataFields :: "DataField list"
  ws_builderState :: BuilderState
  ws_vegaSpec :: VLSpec
  ws_history :: "StateSnapshot list"
  ws_historyIndex :: int

text \<open>\<open>Array.prototype.slice(start, end)\<close>, with negative indices counted from the end.\<close>

definition js_slice :: "'a list \<Rightarrow> int \<Rightarrow> int \<Rightarrow> 'a list" where
  "js_slice xs start fin =
     (let len = int (length xs);
          k = (if start < 0 then max (len + start) 0 else min start len);
          final = (if fin < 0 then max (len + fin) 0 else min fin len)
      in take (nat (final - k)) (drop (nat k) xs))"

text \<open>\<open>captureSnapshot(description)\<close>; \<open>now\<close> is the value of \<open>Date.now()\<close>.\<close>

definition captureSnapshot :: "string option \<Rightarrow> nat \<Rightarrow> WidgetState \<Rightarrow> WidgetState" where
  "captureSnapshot description now state =
     (let snapshot = \<lparr> sn_builderState = ws_builderState state, sn_spec = ws_vegaSpec state,
                        sn_timestamp = now, sn_description = description \<rparr>;
          history1 = js_slice (ws_history state) 0 (ws_historyIndex state + 1) @ [snapshot];
          index1 = int (length history1) - 1
      in if length history1 > 50 then
           (let history2 = js_slice history1 (- 50) (int (length history1))
            in state \<lparr> ws_history := history2, ws_historyIndex := int (length history2) - 1 \<rparr>)
         else state \<lparr> ws_history := history1, ws_historyIndex := index1 \<rparr>)"

text \<open>
  \<open>undo\<close> and \<open>redo\<close> read \<open>state.history[state.historyIndex]\<close>; where that is \<open>undefined\<close>,
  reading \<open>snapshot.builderState\<close> throws a \<open>TypeError\<close> and the store is not updated.
\<close>

datatype js_error = TypeError

definition restore :: "WidgetState \<Rightarrow> int \<Rightarrow> js_error + WidgetState" where
  "restore state i =
     (if 0 \<le> i \<and> i < int (length (ws_history state)) then
        (let snapshot = ws_history state ! nat i
         in Inr (state \<lparr> ws_historyIndex := i,
                          ws_builderState := sn_builderState snapshot,
                          ws_vegaSpec := sn_spec snapshot \<rparr>))
      else Inl TypeError)"

definition undo :: "WidgetState \<Rightarrow> js_error + WidgetState" where
  "undo state =
     (if ws_historyIndex state > 0 then restore state (ws_historyIndex state - 1) else Inr state)"

definition redo :: "WidgetState \<Rightarrow> js_error + WidgetState" where
  "redo state =
     (if ws_historyIndex state < int (length (ws_history state)) - 1
      then restore state (ws_historyIndex state + 1) else Inr state)"

text \<open>\<open>{ ...state.builderState, ...updates }\<close>\<close>

definition mergeBuilderState :: "BuilderState \<Rightarrow> PartialBuilderState \<Rightarrow> BuilderState" where
  "mergeBuilderState b u =
     \<lparr> bs_mark = (case pb_mark u of Some m \<Rightarrow> m | None \<Rightarrow> bs_mark b),
       bs_encodings = (case pb_encodings u of Some e \<Rightarrow> e | None \<Rightarrow> bs_encodings b),
       bs_transforms = (case pb_transforms u of Some ts \<Rightarrow> ts | None \<Rightarrow> bs_transforms b),
       bs_width = orElse (pb_width u) (bs_width b),
       bs_height = orElse (pb_height u) (bs_height b),
       bs_title = (case pb_title u of Some t \<Rightarrow> t | None \<Rightarrow> bs_title b),
       bs_description = orElse (pb_description u) (bs_description b),
       bs_background = orElse (pb_background u) (bs_background b),
       bs_padding = orElse (pb_padding u) (bs_padding b) \<rparr>"

definition setBuilderState :: "PartialBuilderState \<Rightarrow> WidgetState \<Rightarrow> WidgetState" where
  "setBuilderState updates state =
     (let b = mergeBuilderState (ws_builderState state) updates
      in state \<lparr> ws_builderState := b, ws_vegaSpec := buildSpec b (ws_dataFields state) \<rparr>)"

definition setSpec :: "VLSpec \<Rightarrow> PartialBuilderState option \<Rightarrow> WidgetState \<Rightarrow> WidgetState" where
  "setSpec spec builderState state =
     (case builderState of
        None \<Rightarrow> state \<lparr> ws_vegaSpec := spec \<rparr>
      | Some u \<Rightarrow> state \<lparr> ws_vegaSpec := spec,
                          ws_builderState := mergeBuilderState (ws_builderState state) u \<rparr>)"

text \<open>A call on the store, and a sequence of calls; a throwing call ends the sequence.\<close>

datatype action =
  CaptureSnapshot "string option" nat
  | Undo
  | Redo
  | SetBuilderState PartialBuilderState
  | SetSpec VLSpec "PartialBuilderState option"

fun perform :: "action \<Rightarrow> WidgetState \<Rightarrow> js_error + WidgetState" where
  "perform (CaptureSnapshot description now) state = Inr (captureSnapshot description now state)"
| "perform Undo state = undo state"
| "perform Redo state = redo state"
| "perform (SetBuilderState updates) state = Inr (setBuilderState updates state)"
| "perform (SetSpec spec builderState) state = Inr (setSpec spec builderState state)"

fun run :: "action list \<Rightarrow> WidgetState \<Rightarrow> js_error + WidgetState" where
  "run [] state = Inr state"
| "run (a # as) state = (case perform a state of Inl e \<Rightarrow> Inl e | Inr state' \<Rightarrow> run as state')"

text \<open>The store as created: no history, cursor at \<open>-1\<close>.\<close>

definition initialStore :: "DataField list \<Rightarrow> WidgetState" where
  "initialStore initialFields =
     \<lparr> ws_dataFields = initialFields,
       ws_builderState = getDefaultBuilderState,
       ws_vegaSpec = buildSpec getDefaultBuilderState initialFields,
       ws_history = [],
       ws_historyIndex = - 1 \<rparr>"

section \<open>JavaScript strings\<close>

text \<open>
  A string is the list of its code units; the model covers the code units below 256 (ASCII
  and Latin-1), which is what an 8-bit character holds.
\<close>

text \<open>White space, as \<open>trim\<close> and the pattern \<open>\s\<close> take it: tab, line feed, vertical tab, form feed,
  carriage return, space and no-break space.\<close>

definition whiteSpace :: "char list" where
  "whiteSpace = [CHR 0x09, CHR 0x0A, CHR 0x0B, CHR 0x0C, CHR 0x0D, CHR '' '', CHR 0xA0]"

definition trim :: "string \<Rightarrow> string" where
  "trim s = rev (dropWhile (\<lambda>c. c \<in> set whiteSpace) (rev (dropWhile (\<lambda>c. c \<in> set whiteSpace) s)))"

definition upperCaseLetters :: "char list" where
  "upperCaseLetters = ''ABCDEFGHIJKLMNOPQRSTUVWXYZ'' @
     [CHR 0xC0, CHR 0xC1, CHR 0xC2, CHR 0xC3, CHR 0xC4, CHR 0xC5, CHR 0xC6, CHR 0xC7, CHR 0xC8, CHR 0xC9,
      CHR 0xCA, CHR 0xCB, CHR 0xCC, CHR 0xCD, CHR 0xCE, CHR 0xCF, CHR 0xD0, CHR 0xD1, CHR 0xD2, CHR 0xD3,
      CHR 0xD4, CHR 0xD5, CHR 0xD6, CHR 0xD8, CHR 0xD9, CHR 0xDA, CHR 0xDB, CHR 0xDC, CHR 0xDD, CHR 0xDE]"

definition lowerCaseLetters :: "char list" where
  "lowerCaseLetters = ''abcdefghijklmnopqrstuvwxyz'' @
     [CHR 0xE0, CHR 0xE1, CHR 0xE2, CHR 0xE3, CHR 0xE4, CHR 0xE5, CHR 0xE6, CHR 0xE7, CHR 0xE8, CHR 0xE9,
      CHR 0xEA, CHR 0xEB, CHR 0xEC, CHR 0xED, CHR 0xEE, CHR 0xEF, CHR 0xF0, CHR 0xF1, CHR 0xF2, CHR 0xF3,
      CHR 0xF4, CHR 0xF5, CHR 0xF6, CHR 0xF8, CHR 0xF9, CHR 0xFA, CHR 0xFB, CHR 0xFC, CHR 0xFD, CHR 0xFE]"

definition lowerChar :: "char \<Rightarrow> char" where
  "lowerChar c = (case map_of (zip upperCaseLetters lowerCaseLetters) c of Some l \<Rightarrow> l | None \<Rightarrow> c)"

definition toLowerCase :: "string \<Rightarrow> string" where
  "toLowerCase s = map lowerChar s"

text \<open>\<open>norm(s) = s.toLowerCase().trim()\<close>\<close>

definition normStr :: "string \<Rightarrow> string" where
  "normStr s = trim (toLowerCase s)"

text \<open>\<open>s.includes(sub)\<close>\<close>

fun includesStr :: "string \<Rightarrow> string \<Rightarrow> bool" where
  "includesStr [] sub = (sub = [])"
| "includesStr (x # xs) sub = (prefix sub (x # xs) \<or> includesStr xs sub)"

text \<open>
  \<open>s.split(sep)\<close> for a non-empty string \<open>sep\<close>: the pieces between the occurrences of \<open>sep\<close>,
  found from the left without overlap. \<open>piece\<close> is the current piece, reversed.
\<close>

fun splitAcc :: "string \<Rightarrow> string \<Rightarrow> string \<Rightarrow> string list" where
  "splitAcc sep piece [] = [rev piece]"
| "splitAcc sep piece (x # xs) =
     (if prefix sep (x # xs) \<and> sep \<noteq> []
      then rev piece # splitAcc sep [] (drop (length sep) (x # xs))
      else splitAcc sep (x # piece) xs)"

definition split :: "string \<Rightarrow> string \<Rightarrow> string list" where
  "split s sep = splitAcc sep [] s"

text \<open>\<open>parseInt(ds, 10)\<close> on a string of decimal digits, as the exact integer.\<close>

definition digitValue :: "char \<Rightarrow> nat" where
  "digitValue c = (case map_of (zip ''0123456789'' [0 ..< 10]) c of Some d \<Rightarrow> d | None \<Rightarrow> 0)"

definition parseDigits :: "string \<Rightarrow> nat" where
  "parseDigits ds = foldl (\<lambda>n c. 10 * n + digitValue c) 0 ds"

section \<open>Regular expressions\<close>

text \<open>
  The patterns of the planner use literals, character classes, sequence, alternation, greedy
  \<open>?\<close>, greedy \<open>*\<close> and \<open>+\<close> on a single character class, capture groups, \<open>\b\<close>, \<open>^\<close> and \<open>$\<close>.
  The matcher is the backtracking one of the language: alternatives are tried from the left,
  a greedy quantifier tries the longer match first, and the first way to match the whole
  pattern wins.
\<close>

datatype charClass = AnyOf "char list" | NoneOf "char list"

fun inClass :: "charClass \<Rightarrow> char \<Rightarrow> bool" where
  "inClass (AnyOf cs) c = (c \<in> set cs)"
| "inClass (NoneOf cs) c = (c \<notin> set cs)"

datatype regex =
  Empty
  | One charClass
  | Star charClass
  | Seq regex regex
  | Alt regex regex
  | Opt regex
  | Group nat regex
  | WordBoundary
  | Start
  | Finish

text \<open>What is left to match: a pattern, or the end of group \<open>n\<close> that began at the input \<open>s0\<close>.\<close>

datatype pending = Match regex | Close nat string

fun weight :: "regex \<Rightarrow> nat" where
  "weight (Seq a b) = Suc (weight a + weight b)"
| "weight (Alt a b) = Suc (weight a + weight b)"
| "weight (Opt a) = Suc (weight a)"
| "weight (Group n a) = Suc (Suc (weight a))"
| "weight _ = 1"

fun pendingWeight :: "pending \<Rightarrow> nat" where
  "pendingWeight (Match r) = weight r"
| "pendingWeight (Close n s0) = 1"

definition wordChars :: "char list" where
  "wordChars = ''abcdefghijklmnopqrstuvwxyzABCDEFGHIJKLMNOPQRSTUVWXYZ0123456789_''"

definition isWordChar :: "char option \<Rightarrow> bool" where
  "isWordChar c = (case c of None \<Rightarrow> False | Some x \<Rightarrow> x \<in> set wordChars)"

definition nextChar :: "string \<Rightarrow> char option" where
  "nextChar s = (case s of [] \<Rightarrow> None | x # xs \<Rightarrow> Some x)"

text \<open>
  \<open>matchFrom k prev s caps\<close>: match the pending items \<open>k\<close> against the input \<open>s\<close>, which the
  character \<open>prev\<close> precedes (\<open>None\<close> at the start of the string), with the captures \<open>caps\<close> so
  far (the most recent first). The result is the input left after the match and the captures.
\<close>

function matchFrom ::
  "pending list \<Rightarrow> char option \<Rightarrow> string \<Rightarrow> (nat \<times> string) list \<Rightarrow> (string \<times> (nat \<times> string) list) option" where
  "matchFrom [] prev s caps = Some (s, caps)"
| "matchFrom (Close n s0 # k) prev s caps =
     matchFrom k prev s ((n, take (length s0 - length s) s0) # caps)"
| "matchFrom (Match Empty # k) prev s caps = matchFrom k prev s caps"
| "matchFrom (Match (One cls) # k) prev [] caps = None"
| "matchFrom (Match (One cls) # k) prev (x # xs) caps =
     (if inClass cls x then matchFrom k (Some x) xs caps else None)"
| "matchFrom (Match (Star cls) # k) prev [] caps = matchFrom k prev [] caps"
| "matchFrom (Match (Star cls) # k) prev (x # xs) caps =
     (if inClass cls x then
        (case matchFrom (Match (Star cls) # k) (Some x) xs caps of
           Some r \<Rightarrow> Some r
         | None \<Rightarrow> matchFrom k prev (x # xs) caps)
      else matchFrom k prev (x # xs) caps)"
| "matchFrom (Match (Seq a b) # k) prev s caps = matchFrom (Match a # Match b # k) prev s caps"
| "matchFrom (Match (Alt a b) # k) prev s caps =
     (case matchFrom (Match a # k) prev s caps of
        Some r \<Rightarrow> Some r
      | None \<Rightarrow> matchFrom (Match b # k) prev s caps)"
| "matchFrom (Match (Opt a) # k) prev s caps =
     (case matchFrom (Match a # k) prev s caps of
        Some r \<Rightarrow> Some r
      | None \<Rightarrow> matchFrom k prev s caps)"
| "matchFrom (Match (Group n a) # k) prev s caps = matchFrom (Match a # Close n s # k) prev s caps"
| "matchFrom (Match WordBoundary # k) prev s caps =
     (if isWordChar prev \<noteq> isWordChar (nextChar s) then matchFrom k prev s caps else None)"
| "matchFrom (Match Start # k) prev s caps = (if prev = None then matchFrom k prev s caps else None)"
| "matchFrom (Match Finish # k) prev s caps = (if s = [] then matchFrom k prev s caps else None)"
  by pat_completeness auto
termination
  by (relation "measures [\<lambda>(k, prev, s, caps). length s, \<lambda>(k, prev, s, caps). sum_list (map pendingWeight k)]")
    auto

text \<open>The result of \<open>s.match(re)\<close> for a pattern without the \<open>g\<close> flag: the matched text and
  the captures.\<close>

record matchResult =
  matched :: string
  captures :: "(nat \<times> string) list"

text \<open>Capture group \<open>n\<close> of a match: \<open>undefined\<close> when the group took no part in it.\<close>

definition capture :: "matchResult \<Rightarrow> nat \<Rightarrow> string option" where
  "capture r n = map_of (captures r) n"

text \<open>The leftmost match: the pattern is tried at every position of the input, from the left.\<close>

fun searchFrom :: "regex \<Rightarrow> char option \<Rightarrow> string \<Rightarrow> matchResult option" where
  "searchFrom re prev [] =
     (case matchFrom [Match re] prev [] [] of
        Some (rest, caps) \<Rightarrow> Some \<lparr> matched = [], captures = caps \<rparr>
      | None \<Rightarrow> None)"
| "searchFrom re prev (x # xs) =
     (case matchFrom [Match re] prev (x # xs) [] of
        Some (rest, caps) \<Rightarrow>
          Some \<lparr> matched = take (length (x # xs) - length rest) (x # xs), captures = caps \<rparr>
      | None \<Rightarrow> searchFrom re (Some x) xs)"

definition match :: "string \<Rightarrow> regex \<Rightarrow> matchResult option" where
  "match s re = searchFrom re None s"

definition test :: "regex \<Rightarrow> string \<Rightarrow> bool" where
  "test re s = (match s re \<noteq> None)"

text \<open>Builders for patterns: a literal, one or more of a class, and a list of alternatives.\<close>

fun lit :: "string \<Rightarrow> regex" where
  "lit [] = Empty"
| "lit [c] = One (AnyOf [c])"
| "lit (c # cs) = Seq (One (AnyOf [c])) (lit cs)"

definition plus :: "charClass \<Rightarrow> regex" where
  "plus cls = Seq (One cls) (Star cls)"

fun alts :: "regex list \<Rightarrow> regex" where
  "alts [] = Empty"
| "alts [r] = r"
| "alts (r # rs) = Alt r (alts rs)"

fun seqs :: "regex list \<Rightarrow> regex" where
  "seqs [] = Empty"
| "seqs [r] = r"
| "seqs (r # rs) = Seq r (seqs rs)"

definition space :: charClass where
  "space = AnyOf whiteSpace"

definition digit :: charClass where
  "digit = AnyOf ''0123456789''"

text \<open>\<open>[a-zA-Z0-9_]\<close>\<close>

definition word :: charClass where
  "word = AnyOf wordChars"

text \<open>
  \<open>s.split(re)\<close> for a pattern with no capture group that matches no empty string: the pieces
  between the matches, each match looked for from the end of the one before. \<open>piece\<close> is the
  current piece, reversed.
\<close>

fun splitRegexAcc :: "regex \<Rightarrow> string \<Rightarrow> char option \<Rightarrow> string \<Rightarrow> string list" where
  "splitRegexAcc re piece prev [] = [rev piece]"
| "splitRegexAcc re piece prev (x # xs) =
     (case matchFrom [Match re] prev (x # xs) [] of
        Some (rest, caps) \<Rightarrow>
          if length rest < length (x # xs)
          then rev piece #
            splitRegexAcc re [] (Some (last (take (length (x # xs) - length rest) (x # xs)))) rest
          else splitRegexAcc re (x # piece) (Some x) xs
      | None \<Rightarrow> splitRegexAcc re (x # piece) (Some x) xs)"

section \<open>Intent planner (nlPlanner.ts, parseNLToPlan)\<close>

definition lowerAlpha :: "char list" where
  "lowerAlpha = ''abcdefghijklmnopqrstuvwxyz''"

definition upperAlpha :: "char list" where
  "upperAlpha = ''ABCDEFGHIJKLMNOPQRSTUVWXYZ''"

text \<open>\<open>/^#([0-9a-f]{3}|[0-9a-f]{6})$/i\<close>\<close>

definition hexDigit :: charClass where
  "hexDigit = AnyOf ''0123456789abcdefABCDEF''"

definition hexColorPattern :: regex where
  "hexColorPattern =
     seqs [Start, lit ''#'',
           Group 1 (Alt (seqs [One hexDigit, One hexDigit, One hexDigit])
                        (seqs [One hexDigit, One hexDigit, One hexDigit, One hexDigit, One hexDigit, One hexDigit])),
           Finish]"

definition basicColors :: "(string \<times> string) list" where
  "basicColors =
     [(''blue'', ''#1f77b4''), (''orange'', ''#ff7f0e''), (''red'', ''#d62728''), (''green'', ''#2ca02c''),
      (''purple'', ''#9467bd''), (''brown'', ''#8c564b''), (''pink'', ''#e377c2''), (''gray'', ''#7f7f7f''),
      (''grey'', ''#7f7f7f''), (''yellow'', ''#bcbd22''), (''cyan'', ''#17becf''), (''black'', ''#111111''),
      (''white'', ''#ffffff'')]"

text \<open>
  \<open>basic[norm(s)] ?? s\<close>. The two lower-case names that the object literal inherits
  (\<open>constructor\<close>, \<open>__proto__\<close>) are looked up as absent here.
\<close>

definition colorWordToHex :: "string \<Rightarrow> string" where
  "colorWordToHex s =
     (if test hexColorPattern s then s
      else (case map_of basicColors (normStr s) of Some hex \<Rightarrow> hex | None \<Rightarrow> s))"

text \<open>The planner's own \<open>resolveField\<close>: exact, then case-insensitive, then containment.\<close>

definition resolveField :: "string \<Rightarrow> string list \<Rightarrow> string option" where
  "resolveField candidate fieldNames =
     (if candidate \<in> set fieldNames then Some candidate
      else
        (let ci = find (\<lambda>f. toLowerCase f = toLowerCase candidate) fieldNames;
             contains = find (\<lambda>f. includesStr (toLowerCase f) (toLowerCase candidate)) fieldNames
         in if truthy ci then ci else contains))"

text \<open>\<open>toUpperCase\<close> of one word character.\<close>

definition upperWordChar :: "char \<Rightarrow> char" where
  "upperWordChar c = (case map_of (zip lowerAlpha upperAlpha) c of Some u \<Rightarrow> u | None \<Rightarrow> c)"

text \<open>\<open>s.replace(/\b\w/g, (m) => m.toUpperCase())\<close>: every word character that no word
  character precedes is put in upper case.\<close>

fun titleCaseFrom :: "char option \<Rightarrow> string \<Rightarrow> string" where
  "titleCaseFrom prev [] = []"
| "titleCaseFrom prev (x # xs) =
     (if x \<in> set wordChars \<and> \<not> isWordChar prev then upperWordChar x else x) # titleCaseFrom (Some x) xs"

definition titleCase :: "string \<Rightarrow> string" where
  "titleCase s = titleCaseFrom None s"

text \<open>
  Assignment \<open>map[k] = v\<close> to a plain object with string values, kept as the list of its entries
  in the order \<open>Object.keys\<close> gives: array indices ascending, then the other keys as inserted.
  Assigning a string to \<open>__proto__\<close> creates no property.
\<close>

definition isArrayIndex :: "string \<Rightarrow> bool" where
  "isArrayIndex k =
     (k \<noteq> [] \<and> list_all (\<lambda>c. c \<in> set ''0123456789'') k \<and> (k = ''0'' \<or> hd k \<noteq> CHR ''0'')
      \<and> int (parseDigits k) < 4294967295)"

fun insertIndexKey :: "string \<Rightarrow> string \<Rightarrow> (string \<times> string) list \<Rightarrow> (string \<times> string) list" where
  "insertIndexKey k v [] = [(k, v)]"
| "insertIndexKey k v ((k', v') # rest) =
     (if isArrayIndex k' \<and> parseDigits k' < parseDigits k
      then (k', v') # insertIndexKey k v rest
      else (k, v) # (k', v') # rest)"

definition recordSet :: "(string \<times> string) list \<Rightarrow> string \<Rightarrow> string \<Rightarrow> (string \<times> string) list" where
  "recordSet m k v =
     (if k = ''__proto__'' then m
      else if k \<in> set (map fst m) then map (\<lambda>(k', v'). if k' = k then (k', v) else (k', v')) m
      else if isArrayIndex k then insertIndexKey k v m
      else m @ [(k, v)])"

definition markWords :: "string list" where
  "markWords = [''line'', ''bar'', ''area'', ''point'', ''circle'', ''square'', ''tick'', ''rect'', ''rule'', ''text'']"

definition changePhrases :: "string list" where
  "changePhrases = [''change to'', ''switch to'', ''make it'', ''set to'']"

text \<open>\<open>/(change to|switch to|make it|set to)?\s*(line|bar|area|point|circle|square|tick|rect|rule|text)\s*(chart)?/\<close>\<close>

definition markPattern :: regex where
  "markPattern =
     seqs [Opt (Group 1 (alts (map lit changePhrases))), Star space,
           Group 2 (alts (map lit markWords)), Star space, Opt (Group 3 (lit ''chart''))]"

text \<open>\<open>/color (?:lines|bars|points|by)?\s*by\s+([a-zA-Z0-9_]+)/\<close> and \<open>/color by\s+([a-zA-Z0-9_]+)/\<close>\<close>

definition colorByPattern :: regex where
  "colorByPattern =
     seqs [lit ''color '', Opt (alts (map lit [''lines'', ''bars'', ''points'', ''by''])), Star space,
           lit ''by'', plus space, Group 1 (plus word)]"

definition colorByPattern2 :: regex where
  "colorByPattern2 = seqs [lit ''color by'', plus space, Group 1 (plus word)]"

text \<open>\<open>/\s+and\s+/g\<close> and \<open>/^([a-z0-9_\-\s]+)\s+([#a-z0-9_\-]+)$/i\<close>\<close>

definition andPattern :: regex where
  "andPattern = seqs [plus space, lit ''and'', plus space]"

definition pairPattern :: regex where
  "pairPattern =
     seqs [Start,
           Group 1 (plus (AnyOf (lowerAlpha @ upperAlpha @ ''0123456789_-'' @ whiteSpace))),
           plus space,
           Group 2 (plus (AnyOf (''#'' @ lowerAlpha @ upperAlpha @ ''0123456789_-''))),
           Finish]"

text \<open>\<open>/top\s+(\d+)(?:\s+by\s+([a-zA-Z0-9_]+))?/\<close>\<close>

definition topNPattern :: regex where
  "topNPattern =
     seqs [lit ''top'', plus space, Group 1 (plus digit),
           Opt (seqs [plus space, lit ''by'', plus space, Group 2 (plus word)])]"

text \<open>\<open>/sort\s+by\s+([a-zA-Z0-9_]+)\s+(ascending|descending|asc|desc)/\<close> and \<open>/(desc|descending)/\<close>\<close>

definition sortPattern :: regex where
  "sortPattern =
     seqs [lit ''sort'', plus space, lit ''by'', plus space, Group 1 (plus word), plus space,
           Group 2 (alts (map lit [''ascending'', ''descending'', ''asc'', ''desc'']))]"

definition descPattern :: regex where
  "descPattern = Group 1 (alts (map lit [''desc'', ''descending'']))"

text \<open>\<open>/use\s+([a-zA-Z0-9_]+)\s+as\s+color/\<close>\<close>

definition altColorPattern :: regex where
  "altColorPattern =
     seqs [lit ''use'', plus space, Group 1 (plus word), plus space, lit ''as'', plus space, lit ''color'']"

text \<open>\<open>/set title to\s+['""]?([^'""\n]+)['""]?/\<close>\<close>

definition quotes :: "char list" where
  "quotes = [CHR 0x27, CHR 0x22]"

definition titlePattern :: regex where
  "titlePattern =
     seqs [lit ''set title to'', plus space, Opt (One (AnyOf quotes)),
           Group 1 (plus (NoneOf (quotes @ [CHR 0x0A]))), Opt (One (AnyOf quotes))]"

text \<open>\<open>/use\s+([a-z0-9]+)\s+(?:color\s+)?scheme/\<close>\<close>

definition schemePattern :: regex where
  "schemePattern =
     seqs [lit ''use'', plus space, Group 1 (plus (AnyOf (lowerAlpha @ ''0123456789''))), plus space,
           Opt (seqs [lit ''color'', plus space]), lit ''scheme'']"

text \<open>\<open>/\blines\b/\<close>\<close>

definition linesPattern :: regex where
  "linesPattern = seqs [WordBoundary, lit ''lines'', WordBoundary]"

definition noMarkOptions :: MarkOptions where
  "noMarkOptions =
     \<lparr> mo_type = None, mo_point = None, mo_stacked = None, mo_opacity = None, mo_size = None,
       mo_strokeWidth = None, mo_interpolate = None \<rparr>"

text \<open>1) Mark changes.\<close>

definition planMark :: "string \<Rightarrow> Operation list" where
  "planMark lower = (case match lower markPattern of
       None \<Rightarrow> []
     | Some markMatch \<Rightarrow>
         (case capture markMatch 2 of
            None \<Rightarrow> []
          | Some mark \<Rightarrow>
              [SetMark mark (Some (noMarkOptions \<lparr> mo_point := Some (includesStr lower ''with points'') \<rparr>))]))"

text \<open>2) Color by a field.\<close>

definition planColorBy :: "string \<Rightarrow> string list \<Rightarrow> Operation list" where
  "planColorBy lower fieldNames =
     (case orElse (match lower colorByPattern) (match lower colorByPattern2) of
        None \<Rightarrow> []
      | Some colorBy \<Rightarrow>
          (if truthy (capture colorBy 1) then
             (case resolveField (case capture colorBy 1 of Some c \<Rightarrow> c | None \<Rightarrow> []) fieldNames of
                Some fld \<Rightarrow> if fld \<noteq> [] then [SetEncoding ChColor fld None None] else []
              | None \<Rightarrow> [])
           else []))"

text \<open>3) "make West blue and East orange".\<close>

definition addPair :: "(string \<times> string) list \<Rightarrow> string \<Rightarrow> (string \<times> string) list" where
  "addPair m p = (case match p pairPattern of
       None \<Rightarrow> m
     | Some r \<Rightarrow>
         (case (capture r 1, capture r 2) of
            (Some g1, Some g2) \<Rightarrow> recordSet m (titleCase (trim g1)) (colorWordToHex (trim g2))
          | _ \<Rightarrow> m))"

definition planSeriesColors :: "string \<Rightarrow> Operation list" where
  "planSeriesColors lower =
     (if includesStr lower ''make '' then
        (case at_index (split lower ''make '') 1 of
           None \<Rightarrow> []
         | Some afterMake \<Rightarrow>
             if afterMake \<noteq> [] then
               (let pairs = map trim (splitRegexAcc andPattern [] None afterMake);
                    m = foldl addPair [] pairs
                in if m \<noteq> [] then [SetSeriesColors m] else [])
             else [])
      else [])"

text \<open>
  4) "top 10", optionally "by Sales". \<open>parseInt(ds, 10)\<close> on a string of digits is the double
  nearest to the integer the digits denote, and \<open>Infinity\<close> (\<open>None\<close>) when that overflows;
  \<open>n\<close> is then 10.
\<close>

definition parseInt :: "string \<Rightarrow> number option" where
  "parseInt ds =
     (let v = rat_of_nat (parseDigits ds)
      in if overflows v then None else Some (roundToDouble v))"

definition planTopN :: "string \<Rightarrow> string list \<Rightarrow> Operation list" where
  "planTopN lower fieldNames = (case match lower topNPattern of
       None \<Rightarrow> []
     | Some topN \<Rightarrow>
         (let n = parseInt (case capture topN 1 of Some ds \<Rightarrow> ds | None \<Rightarrow> []);
              by = (if truthy (capture topN 2)
                    then resolveField (case capture topN 2 of Some c \<Rightarrow> c | None \<Rightarrow> []) fieldNames
                    else None)
          in [SetTopN (case n of Some v \<Rightarrow> \<lfloor>v\<rfloor> | None \<Rightarrow> 10) by (Some Descending)]))"

text \<open>5) "sort by Sales desc".\<close>

definition planSort :: "string \<Rightarrow> string list \<Rightarrow> Operation list" where
  "planSort lower fieldNames = (case match lower sortPattern of
       None \<Rightarrow> []
     | Some sortMatch \<Rightarrow>
         (let s1 = (case capture sortMatch 1 of Some c \<Rightarrow> c | None \<Rightarrow> []);
              s2 = (case capture sortMatch 2 of Some c \<Rightarrow> c | None \<Rightarrow> []);
              by = (case resolveField s1 fieldNames of Some f \<Rightarrow> f | None \<Rightarrow> s1);
              order = (if test descPattern s2 then Descending else Ascending)
          in [SetSort ''y'' (Some by) order]))"

text \<open>6) "use Region as color".\<close>

definition planAltColor :: "string \<Rightarrow> string list \<Rightarrow> Operation list" where
  "planAltColor lower fieldNames = (case match lower altColorPattern of
       None \<Rightarrow> []
     | Some altColor \<Rightarrow>
         (case resolveField (case capture altColor 1 of Some c \<Rightarrow> c | None \<Rightarrow> []) fieldNames of
            Some fld \<Rightarrow> if fld \<noteq> [] then [SetEncoding ChColor fld None None] else []
          | None \<Rightarrow> []))"

text \<open>7) "set title to X".\<close>

definition planTitle :: "string \<Rightarrow> Operation list" where
  "planTitle lower = (case match lower titlePattern of
       None \<Rightarrow> []
     | Some titleMatch \<Rightarrow> [SetTitle (trim (case capture titleMatch 1 of Some t \<Rightarrow> t | None \<Rightarrow> []))])"

text \<open>8) "use viridis color scheme".\<close>

definition planScheme :: "string \<Rightarrow> Operation list" where
  "planScheme lower = (case match lower schemePattern of
       None \<Rightarrow> []
     | Some schemeMatch \<Rightarrow> [SetColorScheme (case capture schemeMatch 1 of Some s \<Rightarrow> s | None \<Rightarrow> [])])"

definition isSetMark :: "Operation \<Rightarrow> bool" where
  "isSetMark operation = (case operation of SetMark m opts \<Rightarrow> True | _ \<Rightarrow> False)"

text \<open>The plural "lines" without a mark change nudges the line mark.\<close>

definition planLines :: "string \<Rightarrow> Operation list \<Rightarrow> Operation list" where
  "planLines lower ops =
     (if find isSetMark ops = None \<and> test linesPattern lower then [SetMark ''line'' None] else [])"

definition parseNLToPlan :: "string \<Rightarrow> string list \<Rightarrow> BuilderState \<Rightarrow> ChartEditPlan" where
  "parseNLToPlan input fieldNames builder =
     (let trimmed = trim input;
          lower = normStr trimmed;
          ops = planMark lower @ planColorBy lower fieldNames @ planSeriesColors lower
                @ planTopN lower fieldNames @ planSort lower fieldNames
                @ planAltColor lower fieldNames @ planTitle lower @ planScheme lower;
          ops' = ops @ planLines lower ops
      in \<lparr> intentText = input,
           confidence = min 1 (doubleAdd (roundToDouble (6 / 10))
                           (doubleMul (of_nat (length ops')) (roundToDouble (8 / 100)))),
           operations = ops' \<rparr>)"

section \<open>Field inference (fieldInference.ts)\<close>

text \<open>
  A data row is a plain object: the list of its own properties in the order \<open>Object.keys\<close>
  enumerates them, with \<open>Object.prototype\<close> as its prototype. Two functions of the runtime are
  parameters of the model: \<open>toStr v\<close> is \<open>String(v)\<close>, \<open>None\<close> when it throws a \<open>TypeError\<close> (as
  for an object whose own \<open>toString\<close> is not a function), and \<open>parses s\<close> says whether
  \<open>Date.parse(s)\<close> is a finite number. A function that returns \<open>None\<close> throws.
\<close>

type_synonym row = "(string \<times> jsval) list"

text \<open>What a plain object inherits: the properties of \<open>Object.prototype\<close>.\<close>

definition objectPrototype :: row where
  "objectPrototype =
     [(''constructor'', JFunction ''Object''),
      (''__defineGetter__'', JFunction ''__defineGetter__''),
      (''__defineSetter__'', JFunction ''__defineSetter__''),
      (''hasOwnProperty'', JFunction ''hasOwnProperty''),
      (''__lookupGetter__'', JFunction ''__lookupGetter__''),
      (''__lookupSetter__'', JFunction ''__lookupSetter__''),
      (''isPrototypeOf'', JFunction ''isPrototypeOf''),
      (''propertyIsEnumerable'', JFunction ''propertyIsEnumerable''),
      (''toString'', JFunction ''toString''),
      (''valueOf'', JFunction ''valueOf''),
      (''__proto__'', JObject []),
      (''toLocaleString'', JFunction ''toLocaleString'')]"

text \<open>\<open>r[name]\<close>: the own property, else the inherited one, else \<open>undefined\<close>.\<close>

definition property :: "row \<Rightarrow> string \<Rightarrow> jsval" where
  "property r name = (case map_of r name of
       Some v \<Rightarrow> v
     | None \<Rightarrow> (case map_of objectPrototype name of Some v \<Rightarrow> v | None \<Rightarrow> JUndefined))"

text \<open>\<open>v != null\<close>\<close>

definition notNullish :: "jsval \<Rightarrow> bool" where
  "notNullish v = (v \<noteq> JNull \<and> v \<noteq> JUndefined)"

text \<open>\<open>typeof v === 'number' && Number.isFinite(v)\<close>\<close>

definition isFiniteNumber :: "jsval \<Rightarrow> bool" where
  "isFiniteNumber v = (case v of JNum n \<Rightarrow> True | _ \<Rightarrow> False)"

text \<open>\<open>v instanceof Date\<close>\<close>

definition isDate :: "jsval \<Rightarrow> bool" where
  "isDate v = (case v of JDate t \<Rightarrow> True | _ \<Rightarrow> False)"

text \<open>\<open>/\d{4}[-/]\d{2}[-/]\d{2}/\<close>\<close>

definition datePattern :: regex where
  "datePattern =
     seqs [One digit, One digit, One digit, One digit, One (AnyOf ''-/''),
           One digit, One digit, One (AnyOf ''-/''), One digit, One digit]"

definition isDateLike :: "(jsval \<Rightarrow> string option) \<Rightarrow> (string \<Rightarrow> bool) \<Rightarrow> jsval \<Rightarrow> bool option" where
  "isDateLike toStr parses v =
     (if \<not> notNullish v then Some False
      else if isDate v then Some True
      else (case toStr v of
              None \<Rightarrow> None
            | Some s \<Rightarrow> Some (parses s \<and> test datePattern s)))"

text \<open>\<open>xs.filter(p)\<close> and \<open>xs.map(f)\<close> with a callback that may throw.\<close>

fun filterThrowing :: "('a \<Rightarrow> bool option) \<Rightarrow> 'a list \<Rightarrow> 'a list option" where
  "filterThrowing p [] = Some []"
| "filterThrowing p (x # xs) =
     (case p x of
        None \<Rightarrow> None
      | Some b \<Rightarrow>
          (case filterThrowing p xs of
             None \<Rightarrow> None
           | Some ys \<Rightarrow> Some (if b then x # ys else ys)))"

definition mapThrowing :: "('a \<Rightarrow> 'b option) \<Rightarrow> 'a list \<Rightarrow> 'b list option" where
  "mapThrowing f xs = those (map f xs)"

text \<open>
  The thresholds \<open>validSamples.length * 0.6\<close> and \<open>validSamples.length * 0.5\<close> are products of
  doubles.
\<close>

definition inferFieldType :: "(jsval \<Rightarrow> string option) \<Rightarrow> (string \<Rightarrow> bool) \<Rightarrow> jsval list \<Rightarrow> FieldType option" where
  "inferFieldType toStr parses samples =
     (let validSamples = filter notNullish samples
      in if length validSamples = 0 then Some Nominal
         else
           (let nums = filter isFiniteNumber validSamples
            in if rat_of_nat (length nums)
                    > doubleMul (rat_of_nat (length validSamples)) (roundToDouble (6 / 10))
               then Some Quantitative
               else
                 (case filterThrowing (isDateLike toStr parses) validSamples of
                    None \<Rightarrow> None
                  | Some dateLike \<Rightarrow>
                      if rat_of_nat (length dateLike)
                           > doubleMul (rat_of_nat (length validSamples)) (roundToDouble (6 / 10))
                      then Some Temporal
                      else
                        (case mapThrowing toStr validSamples of
                           None \<Rightarrow> None
                         | Some strings \<Rightarrow>
                             (let unique = remdups strings
                              in if length unique \<le> 20
                                    \<and> rat_of_nat (length unique)
                                       < doubleMul (rat_of_nat (length validSamples)) (roundToDouble (5 / 10))
                                 then Some Ordinal
                                 else Some Nominal)))))"

text \<open>The numbers among the values, and the keys of a \<open>Map\<close> in insertion order.\<close>

definition numbersOf :: "jsval list \<Rightarrow> number list" where
  "numbersOf vs = concat (map (\<lambda>v. case v of JNum n \<Rightarrow> [n] | _ \<Rightarrow> []) vs)"

definition firstSeen :: "string list \<Rightarrow> string list" where
  "firstSeen ks = rev (remdups (rev ks))"

definition calculateFieldStats :: "(jsval \<Rightarrow> string option) \<Rightarrow> jsval list \<Rightarrow> FieldType \<Rightarrow> FieldStats option" where
  "calculateFieldStats toStr vals type =
     (let validValues = filter notNullish vals;
          nums = numbersOf validValues
      in case mapThrowing toStr validValues of
           None \<Rightarrow> None
         | Some keys \<Rightarrow>
             Some \<lparr> fs_min = (if type = Quantitative \<and> nums \<noteq> [] then Some (foldl min (hd nums) nums) else None),
                    fs_max = (if type = Quantitative \<and> nums \<noteq> [] then Some (foldl max (hd nums) nums) else None),
                    fs_unique = length (remdups keys),
                    fs_nulls = length vals - length validValues,
                    fs_topValues =
                      (if type = Nominal \<or> type = Ordinal
                       then Some (take 10 (sort_key (\<lambda>(value, count). - int count)
                              (map (\<lambda>k. (k, count_list keys k)) (firstSeen keys))))
                       else None) \<rparr>)"

text \<open>The field names are the keys of the first row; the samples come from the first 100 rows.\<close>

definition inferFields :: "(jsval \<Rightarrow> string option) \<Rightarrow> (string \<Rightarrow> bool) \<Rightarrow> row list \<Rightarrow> DataField list option" where
  "inferFields toStr parses rows =
     (case rows of
        [] \<Rightarrow> Some []
      | first # others \<Rightarrow>
          mapThrowing (\<lambda>name.
                 (let sampleValues = map (\<lambda>r. property r name) (take 100 rows)
                  in case inferFieldType toStr parses sampleValues of
                       None \<Rightarrow> None
                     | Some inferredType \<Rightarrow>
                         (case calculateFieldStats toStr sampleValues inferredType of
                            None \<Rightarrow> None
                          | Some stats \<Rightarrow>
                              Some \<lparr> df_name = name, df_inferredType = inferredType, df_stats = stats \<rparr>)))
              (map fst first))"

text \<open>
  \<open>levenshteinDistance(a, b)\<close>: \<open>matrixEntry a b i j\<close> is the value the loops store in
  \<open>matrix[i][j]\<close>.
\<close>

fun matrixEntry :: "string \<Rightarrow> string \<Rightarrow> nat \<Rightarrow> nat \<Rightarrow> nat" where
  "matrixEntry a b 0 j = j"
| "matrixEntry a b (Suc i) 0 = Suc i"
| "matrixEntry a b (Suc i) (Suc j) =
     (if b ! i = a ! j then matrixEntry a b i j
      else min (matrixEntry a b i j + 1) (min (matrixEntry a b (Suc i) j + 1) (matrixEntry a b i (Suc j) + 1)))"

definition levenshteinDistance :: "string \<Rightarrow> string \<Rightarrow> nat" where
  "levenshteinDistance a b = matrixEntry a b (length b) (length a)"

text \<open>
  The exported \<open>resolveField\<close> of the field-inference module (the planner has its own): exact,
  case-insensitive, containment, then the nearest name within distance 3.
\<close>

definition resolveDataField :: "string \<Rightarrow> DataField list \<Rightarrow> DataField option" where
  "resolveDataField candidate dataFields =
     (let lower = trim (toLowerCase candidate)
      in case find (\<lambda>f. df_name f = candidate) dataFields of
           Some f \<Rightarrow> Some f
         | None \<Rightarrow>
             (case find (\<lambda>f. toLowerCase (df_name f) = lower) dataFields of
                Some f \<Rightarrow> Some f
              | None \<Rightarrow>
                  (case find (\<lambda>f. includesStr (toLowerCase (df_name f)) lower) dataFields of
                     Some f \<Rightarrow> Some f
                   | None \<Rightarrow>
                       (case sort_key fst
                               (filter (\<lambda>m. fst m \<le> 3)
                                  (map (\<lambda>f. (levenshteinDistance lower (toLowerCase (df_name f)), f))
                                     dataFields)) of
                          [] \<Rightarrow> None
                        | m # ms \<Rightarrow> Some (snd m)))))"

section \<open>Properties of the history, in the words of the specification\<close>

text \<open>The cursor is \<open>-1\<close> or a position of the stack, and the stack has at most 50 entries.\<close>

definition historyOk :: "WidgetState \<Rightarrow> bool" where
  "historyOk s = (length (ws_history s) \<le> 50 \<and> - 1 \<le> ws_historyIndex s
      \<and> ws_historyIndex s < int (length (ws_history s)))"

text \<open>The \<open>n\<close> most recent entries of a list, in order.\<close>

definition lastN :: "nat \<Rightarrow> 'a list \<Rightarrow> 'a list" where
  "lastN n xs = drop (length xs - n) xs"

text \<open>A call that is neither \<open>undo\<close> nor \<open>redo\<close>.\<close>

fun isEdit :: "action \<Rightarrow> bool" where
  "isEdit Undo = False"
| "isEdit Redo = False"
| "isEdit _ = True"

text \<open>The snapshots that the calls of \<open>captureSnapshot\<close> in a sequence take, in order.\<close>

fun captured :: "action list \<Rightarrow> WidgetState \<Rightarrow> StateSnapshot list" where
  "captured [] state = []"
| "captured (CaptureSnapshot description now # as) state =
     \<lparr> sn_builderState = ws_builderState state, sn_spec = ws_vegaSpec state,
       sn_timestamp = now, sn_description = description \<rparr>
     # captured as (captureSnapshot description now state)"
| "captured (a # as) state = (case perform a state of Inl e \<Rightarrow> [] | Inr state' \<Rightarrow> captured as state')"

section \<open>Properties of the compiler, the decompiler and the classifier, in the words of the specification\<close>

text \<open>
  An axis channel carries a quantitative type when it is populated (it has a field, so the
  compiler emits it) and its type is quantitative.
\<close>

definition carriesQuantitative :: "EncodingConfig option \<Rightarrow> bool" where
  "carriesQuantitative c = (case c of
       None \<Rightarrow> False
     | Some config \<Rightarrow> truthy (ec_field config) \<and> ec_type config = Some Quantitative)"

text \<open>The stack directive on the x channel of a spec, on its y channel, and on all its other channels.\<close>

definition xStack :: "VLSpec \<Rightarrow> StackMode option" where
  "xStack spec = (case sp_encoding spec of None \<Rightarrow> None | Some e \<Rightarrow> stackOf (ed_x e))"

definition yStack :: "VLSpec \<Rightarrow> StackMode option" where
  "yStack spec = (case sp_encoding spec of None \<Rightarrow> None | Some e \<Rightarrow> stackOf (ed_y e))"

definition tooltipStacks :: "TooltipDef option \<Rightarrow> StackMode option list" where
  "tooltipStacks t = (case t of
       None \<Rightarrow> []
     | Some (TooltipArray ts) \<Rightarrow> map cd_stack ts
     | Some (TooltipSingle d) \<Rightarrow> [cd_stack d])"

definition otherStacks :: "VLSpec \<Rightarrow> StackMode option list" where
  "otherStacks spec = (case sp_encoding spec of
       None \<Rightarrow> []
     | Some e \<Rightarrow> stackOf (ed_color e) # stackOf (ed_size e) # tooltipStacks (ed_tooltip e))"

text \<open>
  The fields of a spec that the decompiler covers: mark type and point overlay, the encoding
  block (with its stack directives), the transform list, width and height, title, description
  and background.
\<close>

definition markTypeAndPoint :: "MarkSpec \<Rightarrow> string \<times> bool option" where
  "markTypeAndPoint m = (case m of MarkName n \<Rightarrow> (n, None) | MarkObject d \<Rightarrow> (md_type d, md_point d))"

definition coveredFields ::
  "VLSpec \<Rightarrow> (string \<times> bool option) option \<times> EncodingDef option \<times> VLTransform list option
     \<times> SpecSize option \<times> SpecSize option \<times> TitleSpec option \<times> string option \<times> string option" where
  "coveredFields spec =
     (map_option markTypeAndPoint (sp_mark spec), sp_encoding spec, sp_transform spec,
      sp_width spec, sp_height spec, sp_title spec, sp_description spec, sp_background spec)"

text \<open>Compile, decompile, compile again; \<open>None\<close> if the decompiled object is no builder state.\<close>

definition recompile :: "BuilderState \<Rightarrow> DataField list \<Rightarrow> VLSpec option" where
  "recompile state dataFields =
     map_option (\<lambda>b. buildSpec b dataFields)
       (asBuilderState (parseSpecToBuilderState (buildSpec state dataFields)))"

text \<open>A transform of kind filter or calculate; one whose expression is not the empty string.\<close>

definition filterOrCalculate :: "ChartTransform \<Rightarrow> bool" where
  "filterOrCalculate t = (case t of TransformFilter e \<Rightarrow> True | TransformCalculate c a \<Rightarrow> True | _ \<Rightarrow> False)"

definition nonEmptyExpression :: "ChartTransform \<Rightarrow> bool" where
  "nonEmptyExpression t = (case t of
       TransformFilter e \<Rightarrow> e \<noteq> []
     | TransformCalculate c a \<Rightarrow> c \<noteq> []
     | _ \<Rightarrow> False)"

text \<open>
  A tooltip that survives decompilation: \<open>'auto'\<close> over fields with non-empty names, or a list
  whose entries have no empty field name and no axis format; or no tooltip.
\<close>

definition tooltipFormat :: "EncodingConfig \<Rightarrow> string option" where
  "tooltipFormat t = (case ec_axis t of None \<Rightarrow> None | Some a \<Rightarrow> ax_format a)"

definition plainTooltip :: "Tooltip option \<Rightarrow> DataField list \<Rightarrow> bool" where
  "plainTooltip tooltip dataFields = (case tooltip of
       Some TooltipAuto \<Rightarrow> list_all (\<lambda>f. df_name f \<noteq> []) (take 6 dataFields)
     | Some (TooltipList ts) \<Rightarrow> list_all (\<lambda>t. ec_field t \<noteq> Some [] \<and> tooltipFormat t = None) ts
     | _ \<Rightarrow> True)"

text \<open>The three conditions of the classifier, read off a spec.\<close>

definition usesComposition :: "VLSpec \<Rightarrow> bool" where
  "usesComposition spec =
     (sp_facet spec \<noteq> None \<or> sp_layer spec \<noteq> None \<or> sp_hconcat spec \<noteq> None
      \<or> sp_vconcat spec \<noteq> None \<or> sp_repeat spec \<noteq> None)"

definition transformCount :: "VLSpec \<Rightarrow> nat" where
  "transformCount spec = (case sp_transform spec of None \<Rightarrow> 0 | Some ts \<Rightarrow> length ts)"

definition dataUrl :: "VLSpec \<Rightarrow> string option" where
  "dataUrl spec = (case sp_data spec of Some (DataUrl url) \<Rightarrow> Some url | _ \<Rightarrow> None)"

section \<open>Sample inputs\<close>

text \<open>Two fields of the sample data, and the builder state of App.tsx: summed Sales by Category, as bars.\<close>

definition sampleFields :: "DataField list" where
  "sampleFields =
     [\<lparr> df_name = ''Category'', df_inferredType = Nominal,
        df_stats = \<lparr> fs_min = None, fs_max = None, fs_unique = 3, fs_nulls = 0, fs_topValues = None \<rparr> \<rparr>,
      \<lparr> df_name = ''Sales'', df_inferredType = Quantitative,
        df_stats = \<lparr> fs_min = Some 70, fs_max = Some 150, fs_unique = 5, fs_nulls = 0, fs_topValues = None \<rparr> \<rparr>]"

definition sampleState :: BuilderState where
  "sampleState = getDefaultBuilderState
     \<lparr> bs_encodings :=
         \<lparr> en_x = Some (emptyEncodingConfig \<lparr> ec_field := Some ''Category'', ec_type := Some Nominal \<rparr>),
           en_y = Some (emptyEncodingConfig \<lparr> ec_field := Some ''Sales'', ec_type := Some Quantitative,
                     ec_aggregate := Some AggSum \<rparr>),
           en_color = None, en_size = None, en_tooltip = Some TooltipAuto \<rparr> \<rparr>"

text \<open>An update of the title alone, and the builder state a run of store calls ends in.\<close>

definition noUpdates :: PartialBuilderState where
  "noUpdates =
     \<lparr> pb_mark = None, pb_encodings = None, pb_transforms = None, pb_width = None, pb_height = None,
       pb_title = None, pb_description = None, pb_background = None, pb_padding = None \<rparr>"

definition builderOf :: "js_error + WidgetState \<Rightarrow> BuilderState option" where
  "builderOf r = (case r of Inl e \<Rightarrow> None | Inr s \<Rightarrow> Some (ws_builderState s))"

section \<open>Properties of the planner, in the words of the specification\<close>

text \<open>
  The word of a list that occurs first in a string: the one found at the leftmost position
  where any of them occurs (the earliest in the list, should several occur there).
\<close>

fun firstOccurrence :: "string list \<Rightarrow> string \<Rightarrow> string option" where
  "firstOccurrence ws [] = find (\<lambda>w. prefix w []) ws"
| "firstOccurrence ws (x # xs) =
     (case find (\<lambda>w. prefix w (x # xs)) ws of
        Some w \<Rightarrow> Some w
      | None \<Rightarrow> firstOccurrence ws xs)"

text \<open>The mark word, and the change phrase, that a string begins with.\<close>

definition markAt :: "string \<Rightarrow> string option" where
  "markAt s = find (\<lambda>w. prefix w s) markWords"

definition phraseAt :: "string \<Rightarrow> string option" where
  "phraseAt s = find (\<lambda>w. prefix w s) changePhrases"

text \<open>
  The parts of the mark pattern: what follows the mark word (\<open>\s*(chart)?\<close>), the pattern from
  the mark word on, and the pattern from the white space before the mark word on.
\<close>

definition afterMark :: "regex" where
  "afterMark = Seq (Star space) (Opt (Group 3 (lit ''chart'')))"

definition fromMark :: regex where
  "fromMark = Seq (Group 2 (alts (map lit markWords))) afterMark"

definition fromSpaces :: regex where
  "fromSpaces = Seq (Star space) fromMark"

definition skipSpaces :: "string \<Rightarrow> string" where
  "skipSpaces s = dropWhile (inClass space) s"

section \<open>Properties of field inference, in the words of the specification\<close>

text \<open>
  A date value or date-like string: a \<open>Date\<close>, or a value whose string parses as a date and
  contains a year-month-day pattern. Here \<open>str\<close> is a stringification that always returns.
\<close>

definition dateValue :: "(jsval \<Rightarrow> string) \<Rightarrow> (string \<Rightarrow> bool) \<Rightarrow> jsval \<Rightarrow> bool" where
  "dateValue str parses v = (isDate v \<or> parses (str v) \<and> test datePattern (str v))"

text \<open>
  The type of a field by the rules of the specification, over its non-null samples:
  quantitative if more than 60% are finite numbers; else temporal if more than 60% are date
  values or date-like strings; else ordinal if the distinct stringified values are at most 20
  and fewer than 50% of the sample count; else nominal.
\<close>

definition typeBySpec :: "(jsval \<Rightarrow> string) \<Rightarrow> (string \<Rightarrow> bool) \<Rightarrow> jsval list \<Rightarrow> FieldType" where
  "typeBySpec str parses samples =
     (let nonNull = filter notNullish samples;
          n = length nonNull;
          finite = length (filter isFiniteNumber nonNull);
          dates = length (filter (dateValue str parses) nonNull);
          distinctValues = card (set (map str nonNull))
      in if 100 * finite > 60 * n then Quantitative
         else if 100 * dates > 60 * n then Temporal
         else if distinctValues \<le> 20 \<and> 100 * distinctValues < 50 * n then Ordinal
         else Nominal)"

text \<open>
  \<open>String(v)\<close> returns \<open>str v\<close> for every value other than \<open>null\<close> and \<open>undefined\<close> that the
  rows have under the names.
\<close>

definition stringifies :: "(jsval \<Rightarrow> string option) \<Rightarrow> (jsval \<Rightarrow> string) \<Rightarrow> row list \<Rightarrow> string list \<Rightarrow> bool" where
  "stringifies toStr str rows names =
     list_all (\<lambda>r. list_all (\<lambda>name. \<not> notNullish (property r name)
                                    \<or> toStr (property r name) = Some (str (property r name))) names) rows"

text \<open>
  \<open>String(v)\<close> restricted to the values of the examples: strings, booleans, non-finite numbers
  and integers below \<open>10^21\<close>. It is \<open>None\<close> on every other value; the examples contain none.
\<close>

definition exampleString :: "jsval \<Rightarrow> string option" where
  "exampleString v = (case v of
       JStr s \<Rightarrow> Some s
     | JBool b \<Rightarrow> Some (if b then ''true'' else ''false'')
     | JNonFinite NaN \<Rightarrow> Some ''NaN''
     | JNonFinite PlusInfinity \<Rightarrow> Some ''Infinity''
     | JNonFinite MinusInfinity \<Rightarrow> Some ''-Infinity''
     | JNum n \<Rightarrow> (if of_int \<lfloor>n\<rfloor> = n \<and> \<bar>n\<bar> < 10 ^ 21 then Some (showInt \<lfloor>n\<rfloor>) else None)
     | _ \<Rightarrow> None)"

definition exampleStr :: "jsval \<Rightarrow> string" where
  "exampleStr v = (case exampleString v of Some s \<Rightarrow> s | None \<Rightarrow> [])"

section \<open>Numbers\<close>

text \<open>
  Printing: a small integer in decimal notation, \<open>10^21\<close> in exponent notation, and the double
  nearest to \<open>10^23\<close> by the shortest decimal that reads back as it.
\<close>

lemma showInt_examples:
  "showInt 10 = ''10'' \<and> showInt (- 3) = ''-3'' \<and> showInt (10 ^ 21) = ''1e+21''
   \<and> showInt 99999999999999991611392 = ''1e+23''"
  by code_simp

text \<open>The literals 0.6 and 0.08 as doubles.\<close>

lemma literal_examples:
  "roundToDouble (6 / 10) = 5404319552844595 / 2 ^ 53 \<and> roundToDouble (8 / 100) = 5764607523034235 / 2 ^ 56"
  by code_simp

section \<open>The history manager\<close>

lemma js_slice_prefix: "0 \<le> n \<Longrightarrow> js_slice xs 0 n = take (nat n) xs"
  by (auto simp: js_slice_def Let_def min_def)

lemma js_slice_last: "length xs > 50 \<Longrightarrow> js_slice xs (- 50) (int (length xs)) = drop (length xs - 50) xs"
  by (auto simp: js_slice_def Let_def max_def nat_diff_distrib)

lemma captureSnapshot_history:
  assumes "- 1 \<le> ws_historyIndex s"
  shows "ws_history (captureSnapshot d t s) =
     (let h = take (nat (ws_historyIndex s + 1)) (ws_history s) @
         [\<lparr> sn_builderState = ws_builderState s, sn_spec = ws_vegaSpec s, sn_timestamp = t, sn_description = d \<rparr>]
      in drop (length h - 50) h)"
proof -
  define h where "h = take (nat (ws_historyIndex s + 1)) (ws_history s) @
         [\<lparr> sn_builderState = ws_builderState s, sn_spec = ws_vegaSpec s, sn_timestamp = t, sn_description = d \<rparr>]"
  have pre: "js_slice (ws_history s) 0 (ws_historyIndex s + 1) = take (nat (ws_historyIndex s + 1)) (ws_history s)"
    using assms by (simp add: js_slice_prefix)
  have "ws_history (captureSnapshot d t s) =
      (if length h > 50 then js_slice h (- 50) (int (length h)) else h)"
    unfolding captureSnapshot_def Let_def pre by (simp add: h_def)
  also have "\<dots> = drop (length h - 50) h"
    by (simp add: js_slice_last)
  finally show ?thesis by (simp add: h_def Let_def)
qed

lemma captureSnapshot_index:
  "ws_historyIndex (captureSnapshot d t s) = int (length (ws_history (captureSnapshot d t s))) - 1"
  by (auto simp: captureSnapshot_def Let_def)

lemma captureSnapshot_ok: "historyOk s \<Longrightarrow> historyOk (captureSnapshot d t s)"
  unfolding historyOk_def
  by (auto simp: captureSnapshot_history captureSnapshot_index Let_def)

lemma undo_ok: "historyOk s \<Longrightarrow> \<exists>s'. undo s = Inr s' \<and> historyOk s'"
  by (auto simp: undo_def restore_def historyOk_def Let_def)

lemma redo_ok: "historyOk s \<Longrightarrow> \<exists>s'. redo s = Inr s' \<and> historyOk s'"
  by (auto simp: redo_def restore_def historyOk_def Let_def)

lemma perform_ok: "historyOk s \<Longrightarrow> \<exists>s'. perform a s = Inr s' \<and> historyOk s'"
proof (cases a)
  case (CaptureSnapshot d t)
  assume "historyOk s"
  then show ?thesis using CaptureSnapshot by (simp add: captureSnapshot_ok)
next
  case Undo
  assume "historyOk s"
  then show ?thesis using Undo by (simp add: undo_ok)
next
  case Redo
  assume "historyOk s"
  then show ?thesis using Redo by (simp add: redo_ok)
next
  case (SetBuilderState u)
  assume "historyOk s"
  then show ?thesis using SetBuilderState by (simp add: setBuilderState_def historyOk_def Let_def)
next
  case (SetSpec sp u)
  assume "historyOk s"
  then show ?thesis using SetSpec by (simp add: setSpec_def historyOk_def split: option.splits)
qed

lemma run_ok: "historyOk s \<Longrightarrow> \<exists>s'. run acts s = Inr s' \<and> historyOk s'"
proof (induction acts arbitrary: s)
  case Nil
  then show ?case by simp
next
  case (Cons a acts)
  from perform_ok[OF Cons.prems] obtain s1 where s1: "perform a s = Inr s1" "historyOk s1" by blast
  from Cons.IH[OF s1(2)] show ?case using s1(1) by simp
qed


lemma lastN_append_lastN: "lastN n (lastN n xs @ ys) = lastN n (xs @ ys)"
proof -
  have "length xs + length ys - (length xs - n + n) + (length xs - n) = length xs + length ys - n"
    by arith
  then show ?thesis by (auto simp: lastN_def)
qed

lemma lastN_short: "length xs \<le> n \<Longrightarrow> lastN n xs = xs"
  by (simp add: lastN_def)

lemma length_lastN: "length (lastN n xs) \<le> n"
  by (simp add: lastN_def)

lemma captureSnapshot_top:
  assumes "ws_historyIndex s = int (length (ws_history s)) - 1"
  shows "ws_history (captureSnapshot d t s) = lastN 50 (ws_history s @
         [\<lparr> sn_builderState = ws_builderState s, sn_spec = ws_vegaSpec s, sn_timestamp = t, sn_description = d \<rparr>])"
  using assms captureSnapshot_history[of s d t] by (simp add: lastN_def Let_def)

lemma captureSnapshot_model:
  "ws_builderState (captureSnapshot d t s) = ws_builderState s \<and> ws_vegaSpec (captureSnapshot d t s) = ws_vegaSpec s"
  by (simp add: captureSnapshot_def Let_def)

lemma run_edits:
  assumes "list_all isEdit acts" "ws_historyIndex s = int (length (ws_history s)) - 1"
    "length (ws_history s) \<le> 50"
  shows "\<exists>s'. run acts s = Inr s' \<and> ws_history s' = lastN 50 (ws_history s @ captured acts s)
     \<and> ws_historyIndex s' = int (length (ws_history s')) - 1"
  using assms
proof (induction acts arbitrary: s)
  case Nil
  then show ?case by (simp add: lastN_short)
next
  case (Cons a acts)
  from Cons.prems(1) have edits: "list_all isEdit acts" by simp
  show ?case
  proof (cases a)
    case (CaptureSnapshot d t)
    let ?s1 = "captureSnapshot d t s"
    have top: "ws_historyIndex ?s1 = int (length (ws_history ?s1)) - 1"
      by (rule captureSnapshot_index)
    have len: "length (ws_history ?s1) \<le> 50"
      using captureSnapshot_top[OF Cons.prems(2), of d t] by (simp add: length_lastN)
    from Cons.IH[OF edits top len] obtain s' where s':
      "run acts ?s1 = Inr s'" "ws_history s' = lastN 50 (ws_history ?s1 @ captured acts ?s1)"
      "ws_historyIndex s' = int (length (ws_history s')) - 1" by blast
    have "ws_history s' = lastN 50 (ws_history s @ captured (a # acts) s)"
      using s'(2) CaptureSnapshot captureSnapshot_top[OF Cons.prems(2), of d t]
      by (simp add: lastN_append_lastN)
    then show ?thesis using s'(1,3) CaptureSnapshot by simp
  next
    case Undo
    then show ?thesis using Cons.prems by simp
  next
    case Redo
    then show ?thesis using Cons.prems by simp
  next
    case (SetBuilderState u)
    let ?s1 = "setBuilderState u s"
    have h: "ws_history ?s1 = ws_history s" "ws_historyIndex ?s1 = ws_historyIndex s"
      by (simp_all add: setBuilderState_def Let_def)
    from Cons.IH[OF edits, of ?s1] show ?thesis using SetBuilderState h Cons.prems(2,3) by simp
  next
    case (SetSpec sp u)
    let ?s1 = "setSpec sp u s"
    have h: "ws_history ?s1 = ws_history s" "ws_historyIndex ?s1 = ws_historyIndex s"
      by (simp_all add: setSpec_def split: option.splits)
    from Cons.IH[OF edits, of ?s1] show ?thesis using SetSpec h Cons.prems(2,3) by simp
  qed
qed

lemma initialStore_ok: "historyOk (initialStore fs)"
  by (simp add: historyOk_def initialStore_def)

text \<open>
  Claim C3. Whatever sequence of \<open>captureSnapshot\<close>, \<open>undo\<close>, \<open>redo\<close> and model mutations
  runs on the store as created, no call throws and the stack never holds more than 50
  snapshots. When the sequence has no \<open>undo\<close> or \<open>redo\<close>, the stack holds the 50 most recent
  of the snapshots taken (all of them when there are fewer), in order, and the cursor is on
  the last one: eviction is from the front.
\<close>

theorem history_bounded:
  "\<exists>s'. run acts (initialStore fs) = Inr s' \<and> length (ws_history s') \<le> 50 \<and>
     (list_all isEdit acts \<longrightarrow>
        ws_history s' = lastN 50 (captured acts (initialStore fs)) \<and>
        ws_historyIndex s' = int (length (ws_history s')) - 1)"
proof -
  from run_ok[OF initialStore_ok, of acts fs] obtain s' where
    s': "run acts (initialStore fs) = Inr s'" "historyOk s'" by blast
  have "list_all isEdit acts \<longrightarrow>
        ws_history s' = lastN 50 (captured acts (initialStore fs)) \<and>
        ws_historyIndex s' = int (length (ws_history s')) - 1"
  proof
    assume e: "list_all isEdit acts"
    have "ws_historyIndex (initialStore fs) = int (length (ws_history (initialStore fs))) - 1"
      "length (ws_history (initialStore fs)) \<le> 50" "ws_history (initialStore fs) = []"
      by (simp_all add: initialStore_def)
    from run_edits[OF e this(1,2)] s'(1) this(3)
    show "ws_history s' = lastN 50 (captured acts (initialStore fs)) \<and>
        ws_historyIndex s' = int (length (ws_history s')) - 1" by simp
  qed
  with s' show ?thesis by (auto simp: historyOk_def)
qed

lemma captured_timestamps:
  "map sn_timestamp (captured (map (CaptureSnapshot None) ts) s) = ts"
  by (induction ts arbitrary: s) simp_all

text \<open>Fifty-one captures with time stamps 1 to 51 leave the snapshots 2 to 51.\<close>

theorem history_bounded_witness:
  "list_all isEdit (map (CaptureSnapshot None) [1 ..< 52]) \<and>
   (\<exists>s'. run (map (CaptureSnapshot None) [1 ..< 52]) (initialStore []) = Inr s' \<and>
      length (ws_history s') \<le> 50 \<and> map sn_timestamp (ws_history s') = [2 ..< 52])"
proof -
  have e: "list_all isEdit (map (CaptureSnapshot None) [1 ..< 52])"
    by (simp add: list_all_iff)
  from history_bounded[of "map (CaptureSnapshot None) [1 ..< 52]" "[]"] e obtain s' where
    s': "run (map (CaptureSnapshot None) [1 ..< 52]) (initialStore []) = Inr s'"
      "length (ws_history s') \<le> 50"
      "ws_history s' = lastN 50 (captured (map (CaptureSnapshot None) [1 ..< 52]) (initialStore []))"
    by blast
  let ?c = "captured (map (CaptureSnapshot None) [1 ..< 52]) (initialStore [])"
  have ts: "map sn_timestamp ?c = [1 ..< 52]"
    by (rule captured_timestamps)
  then have "length ?c = length [1 ..< 52::nat]"
    by (metis length_map)
  then have "length ?c - 50 = 1" by simp
  then have "map sn_timestamp (ws_history s') = drop 1 (map sn_timestamp ?c)"
    unfolding s'(3) lastN_def by (simp only: drop_map)
  also have "\<dots> = [2 ..< 52]"
    unfolding ts by (simp add: drop_upt numeral_2_eq_2 del: upt_Suc upt_rec_numeral)
  finally show ?thesis using e s'(1,2) by blast
qed

section \<open>Undo and redo\<close>

lemma merge_title: "mergeBuilderState b (noUpdates \<lparr> pb_title := Some (Some t) \<rparr>) = b \<lparr> bs_title := Some t \<rparr>"
  by (simp add: mergeBuilderState_def noUpdates_def orElse_def)

text \<open>
  Claim C2, evaluated on the code. On the store as created, \<open>captureSnapshot\<close>, a change of
  the title to A, then \<open>undo\<close>: the cursor is 0, so \<open>undo\<close> does nothing and the model keeps
  the title A instead of going back to the captured one. After a second capture and a change
  to B, \<open>undo\<close> restores the snapshot before the one just captured (the default model, not the
  model with title A), and \<open>redo\<close> then restores the model with title A, not the one with B.
\<close>

theorem undo_restores_older_snapshot:
  "builderOf (run [CaptureSnapshot None 1, SetBuilderState (noUpdates \<lparr> pb_title := Some (Some ''A'') \<rparr>), Undo]
       (initialStore [])) = Some (getDefaultBuilderState \<lparr> bs_title := Some ''A'' \<rparr>)
   \<and> builderOf (run [CaptureSnapshot None 1, SetBuilderState (noUpdates \<lparr> pb_title := Some (Some ''A'') \<rparr>),
         CaptureSnapshot None 2, SetBuilderState (noUpdates \<lparr> pb_title := Some (Some ''B'') \<rparr>), Undo]
       (initialStore [])) = Some getDefaultBuilderState
   \<and> builderOf (run [CaptureSnapshot None 1, SetBuilderState (noUpdates \<lparr> pb_title := Some (Some ''A'') \<rparr>),
         CaptureSnapshot None 2, SetBuilderState (noUpdates \<lparr> pb_title := Some (Some ''B'') \<rparr>), Undo, Redo]
       (initialStore [])) = Some (getDefaultBuilderState \<lparr> bs_title := Some ''A'' \<rparr>)"
  by (simp add: builderOf_def initialStore_def captureSnapshot_def js_slice_def setBuilderState_def
      merge_title undo_def redo_def restore_def Let_def)

section \<open>Stacking\<close>

lemma isQuantitative_buildChannel: "isQuantitative (buildChannel c) = carriesQuantitative c"
  by (simp add: isQuantitative_def buildChannel_def carriesQuantitative_def buildEncodingChannel_def
      split: option.splits)

lemma stackOf_built: "stackOf (buildChannel c) = None"
  by (simp add: stackOf_def buildChannel_def buildEncodingChannel_def split: option.splits)

lemma tooltipStacks_build: "\<forall>s \<in> set (tooltipStacks (buildTooltip t fs)). s = None"
  by (auto simp: tooltipStacks_def buildTooltip_def emptyChannelDef_def split: option.splits Tooltip.splits)

lemma stackOf_map_set: "stackOf (map_option (\<lambda>d. d \<lparr> cd_stack := Some m \<rparr>) c) = (if c = None then None else Some m)"
  by (cases c) (simp_all add: stackOf_def)

lemma isQuantitative_Some: "isQuantitative c \<Longrightarrow> c \<noteq> None"
  by (cases c) (simp_all add: isQuantitative_def)

lemma stackOf_None: "stackOf None = None"
  by (simp add: stackOf_def)

text \<open>
  Claim C7. With a stack mode set and a bar or area mark, the compiled spec carries the stack
  directive on the y channel when y is quantitative, else on the x channel when x is
  quantitative, else on no channel; no other channel ever carries one.
\<close>

theorem stacking_channel:
  assumes "mk_stacked (bs_mark state) = Some (Val m)"
    and "mk_type (bs_mark state) = ''bar'' \<or> mk_type (bs_mark state) = ''area''"
  shows "yStack (buildSpec state dataFields) =
           (if carriesQuantitative (en_y (bs_encodings state)) then Some m else None)
     \<and> xStack (buildSpec state dataFields) =
           (if \<not> carriesQuantitative (en_y (bs_encodings state))
               \<and> carriesQuantitative (en_x (bs_encodings state)) then Some m else None)
     \<and> list_all (\<lambda>s. s = None) (otherStacks (buildSpec state dataFields))"
proof -
  let ?x = "buildChannel (en_x (bs_encodings state))"
  let ?y = "buildChannel (en_y (bs_encodings state))"
  have o: "list_all (\<lambda>s. s = None) (otherStacks (buildSpec state dataFields))"
    using tooltipStacks_build[of "en_tooltip (bs_encodings state)" dataFields]
    by (auto simp: otherStacks_def buildSpec_def attachStack_def Let_def stackOf_built list_all_iff
        split: option.splits nullable.splits)
  have y: "yStack (buildSpec state dataFields) =
           (if carriesQuantitative (en_y (bs_encodings state)) then Some m else None)"
    using assms isQuantitative_Some[of ?y]
    by (auto simp: yStack_def buildSpec_def attachStack_def Let_def stackOf_map_set stackOf_None
        stackOf_built isQuantitative_buildChannel)
  have x: "xStack (buildSpec state dataFields) =
           (if \<not> carriesQuantitative (en_y (bs_encodings state))
               \<and> carriesQuantitative (en_x (bs_encodings state)) then Some m else None)"
    using assms isQuantitative_Some[of ?x]
    by (auto simp: xStack_def buildSpec_def attachStack_def Let_def stackOf_map_set stackOf_None
        stackOf_built isQuantitative_buildChannel)
  from o x y show ?thesis by simp
qed

lemmas sample_defs = sampleState_def sampleFields_def getDefaultBuilderState_def emptyEncodingConfig_def
  emptyEncodings_def

text \<open>Stacked bars of summed Sales by Category: the directive goes on y.\<close>

theorem stacking_channel_witness:
  "yStack (buildSpec (sampleState \<lparr> bs_mark := bs_mark sampleState \<lparr> mk_stacked := Some (Val Zero) \<rparr> \<rparr>) sampleFields)
      = Some Zero
   \<and> xStack (buildSpec (sampleState \<lparr> bs_mark := bs_mark sampleState \<lparr> mk_stacked := Some (Val Zero) \<rparr> \<rparr>) sampleFields)
      = None"
  using stacking_channel[of "sampleState \<lparr> bs_mark := bs_mark sampleState \<lparr> mk_stacked := Some (Val Zero) \<rparr> \<rparr>"
      Zero sampleFields]
  by (simp add: sample_defs carriesQuantitative_def truthy_def)

section \<open>Round trip through the decompiler\<close>

lemma parse_build_channel:
  "truthy (ec_field c) \<Longrightarrow> parseEncodingChannel (buildEncodingChannel c \<lparr> cd_stack := s \<rparr>) = c"
  by (cases c) (auto simp: parseEncodingChannel_def buildEncodingChannel_def split: option.splits)

lemma parse_build_channel0:
  "truthy (ec_field c) \<Longrightarrow> parseEncodingChannel (buildEncodingChannel c) = c"
  by (cases c) (auto simp: parseEncodingChannel_def buildEncodingChannel_def split: option.splits)

lemma rebuild_channel:
  "buildChannel (map_option parseEncodingChannel (buildChannel c)) = buildChannel c"
  by (cases c) (auto simp: buildChannel_def parse_build_channel0)

lemma rebuild_channel_stack:
  "buildChannel (map_option parseEncodingChannel (map_option (\<lambda>d. d \<lparr> cd_stack := s \<rparr>) (buildChannel c)))
     = buildChannel c"
  by (cases c) (auto simp: buildChannel_def parse_build_channel)

lemma rebuild_transforms:
  "list_all nonEmptyExpression ts \<Longrightarrow>
   buildTransforms (concat (map parseTransform (buildTransforms ts))) = buildTransforms ts"
  by (induction ts) (auto simp: buildTransforms_def nonEmptyExpression_def split: ChartTransform.splits)

lemma truthy_Some: "truthy (Some s) = (s \<noteq> [])"
  by (simp add: truthy_def)

lemma rebuild_tooltip_entry_auto:
  "df_name f \<noteq> [] \<Longrightarrow>
   (let t = parseEncodingChannel (emptyChannelDef \<lparr> cd_field := Some (df_name f), cd_type := Some (df_inferredType f) \<rparr>)
    in emptyChannelDef \<lparr> cd_field := ec_field t, cd_type := ec_type t, cd_aggregate := ec_aggregate t,
          cd_format := (case ec_axis t of None \<Rightarrow> None | Some a \<Rightarrow> ax_format a) \<rparr>)
   = emptyChannelDef \<lparr> cd_field := Some (df_name f), cd_type := Some (df_inferredType f) \<rparr>"
  by (simp add: parseEncodingChannel_def emptyChannelDef_def truthy_def Let_def)

lemma rebuild_tooltip_entry_list:
  "ec_field e \<noteq> Some [] \<Longrightarrow> tooltipFormat e = None \<Longrightarrow>
   (let t = parseEncodingChannel (emptyChannelDef \<lparr> cd_field := ec_field e, cd_type := ec_type e,
               cd_aggregate := ec_aggregate e, cd_format := tooltipFormat e \<rparr>)
    in emptyChannelDef \<lparr> cd_field := ec_field t, cd_type := ec_type t, cd_aggregate := ec_aggregate t,
          cd_format := (case ec_axis t of None \<Rightarrow> None | Some a \<Rightarrow> ax_format a) \<rparr>)
   = emptyChannelDef \<lparr> cd_field := ec_field e, cd_type := ec_type e,
               cd_aggregate := ec_aggregate e, cd_format := tooltipFormat e \<rparr>"
  by (cases "ec_field e") (simp_all add: parseEncodingChannel_def emptyChannelDef_def truthy_def Let_def)

lemma rebuild_tooltip:
  assumes "plainTooltip t fs"
  shows "buildTooltip (case buildTooltip t fs of None \<Rightarrow> None
            | Some (TooltipArray ts) \<Rightarrow> Some (TooltipList (map parseEncodingChannel ts))
            | Some (TooltipSingle d) \<Rightarrow> Some TooltipAuto) fs = buildTooltip t fs"
proof (cases t)
  case None
  then show ?thesis by (simp add: buildTooltip_def)
next
  case (Some tt)
  show ?thesis
  proof (cases tt)
    case TooltipAuto
    with Some assms have ne: "list_all (\<lambda>f. df_name f \<noteq> []) (take 6 fs)"
      by (simp add: plainTooltip_def)
    have "map (\<lambda>x. (let t = parseEncodingChannel (emptyChannelDef \<lparr> cd_field := Some (df_name x), cd_type := Some (df_inferredType x) \<rparr>)
        in emptyChannelDef \<lparr> cd_field := ec_field t, cd_type := ec_type t, cd_aggregate := ec_aggregate t,
          cd_format := (case ec_axis t of None \<Rightarrow> None | Some a \<Rightarrow> ax_format a) \<rparr>)) (take 6 fs)
      = map (\<lambda>f. emptyChannelDef \<lparr> cd_field := Some (df_name f), cd_type := Some (df_inferredType f) \<rparr>) (take 6 fs)"
      using ne by (intro map_cong refl rebuild_tooltip_entry_auto) (simp add: list_all_iff)
    then show ?thesis using Some TooltipAuto
      by (simp add: buildTooltip_def Let_def comp_def)
  next
    case TooltipNone
    with Some show ?thesis by (simp add: buildTooltip_def)
  next
    case (TooltipList es)
    with Some assms have ok: "list_all (\<lambda>t. ec_field t \<noteq> Some [] \<and> tooltipFormat t = None) es"
      by (simp add: plainTooltip_def)
    have "map (\<lambda>e. (let t = parseEncodingChannel (emptyChannelDef \<lparr> cd_field := ec_field e, cd_type := ec_type e,
               cd_aggregate := ec_aggregate e, cd_format := tooltipFormat e \<rparr>)
        in emptyChannelDef \<lparr> cd_field := ec_field t, cd_type := ec_type t, cd_aggregate := ec_aggregate t,
          cd_format := (case ec_axis t of None \<Rightarrow> None | Some a \<Rightarrow> ax_format a) \<rparr>)) es
      = map (\<lambda>e. emptyChannelDef \<lparr> cd_field := ec_field e, cd_type := ec_type e,
               cd_aggregate := ec_aggregate e, cd_format := tooltipFormat e \<rparr>) es"
      using ok by (intro map_cong refl rebuild_tooltip_entry_list) (simp_all add: list_all_iff)
    then show ?thesis using Some TooltipList
      by (simp add: buildTooltip_def Let_def comp_def tooltipFormat_def)
  qed
qed

lemma parseEncodings_attach:
  fixes x y co sz :: "EncodingConfig option"
  assumes "plainTooltip t fs"
  defines "E0 \<equiv> \<lparr> ed_x = buildChannel x, ed_y = buildChannel y, ed_color = buildChannel co,
      ed_size = buildChannel sz, ed_tooltip = buildTooltip t fs \<rparr>"
  shows "(let e = parseEncodings (spec \<lparr> sp_encoding := Some (attachStack m E0) \<rparr>)
    in \<lparr> ed_x = buildChannel (en_x e), ed_y = buildChannel (en_y e), ed_color = buildChannel (en_color e),
      ed_size = buildChannel (en_size e), ed_tooltip = buildTooltip (en_tooltip e) fs \<rparr>) = E0"
  using rebuild_tooltip[OF assms(1)]
  by (auto simp: E0_def parseEncodings_def attachStack_def Let_def rebuild_channel rebuild_channel_stack
      split: option.splits nullable.splits)

lemma attach_again:
  assumes "stackOf (ed_x E0) = None" "stackOf (ed_y E0) = None"
    and "mk_type m' = mk_type m"
    and "mk_stacked m' = (case stackOf (ed_y (attachStack m E0)) of
                    Some s \<Rightarrow> Some (Val s)
                  | None \<Rightarrow> (case stackOf (ed_x (attachStack m E0)) of Some s \<Rightarrow> Some (Val s) | None \<Rightarrow> Some Null))"
  shows "attachStack m' E0 = attachStack m E0"
proof (cases "\<exists>s. mk_stacked m = Some (Val s) \<and> (mk_type m = ''bar'' \<or> mk_type m = ''area'')")
  case False
  then have a: "attachStack m E0 = E0"
    by (auto simp: attachStack_def split: option.splits nullable.splits)
  with assms have "mk_stacked m' = Some Null" by simp
  then have "attachStack m' E0 = E0" by (simp add: attachStack_def)
  with a show ?thesis by simp
next
  case True
  then obtain s where s: "mk_stacked m = Some (Val s)" "mk_type m = ''bar'' \<or> mk_type m = ''area''"
    by blast
  show ?thesis
  proof (cases "isQuantitative (ed_y E0)")
    case True
    then have a: "attachStack m E0 = E0 \<lparr> ed_y := map_option (\<lambda>d. d \<lparr> cd_stack := Some s \<rparr>) (ed_y E0) \<rparr>"
      using s by (auto simp: attachStack_def)
    have "mk_stacked m' = Some (Val s)"
      using assms(4) True isQuantitative_Some[OF True] unfolding a by (simp add: stackOf_map_set)
    then show ?thesis using s True assms(3) by (auto simp: attachStack_def)
  next
    case noY: False
    show ?thesis
    proof (cases "isQuantitative (ed_x E0)")
      case True
      then have a: "attachStack m E0 = E0 \<lparr> ed_x := map_option (\<lambda>d. d \<lparr> cd_stack := Some s \<rparr>) (ed_x E0) \<rparr>"
        using s noY by (auto simp: attachStack_def)
      have "mk_stacked m' = Some (Val s)"
        using assms(2,4) True isQuantitative_Some[OF True] unfolding a by (simp add: stackOf_map_set)
      then show ?thesis using s True noY assms(3) by (auto simp: attachStack_def)
    next
      case False
      then have a: "attachStack m E0 = E0"
        using s noY by (auto simp: attachStack_def)
      with assms have "mk_stacked m' = Some Null" by simp
      then have "attachStack m' E0 = E0" by (simp add: attachStack_def)
      with a show ?thesis by simp
    qed
  qed
qed

text \<open>
  Claim C1, as amended. For a model whose transforms are filters and calculations with a
  non-empty expression and whose tooltip is plain, and for every field list, the decompiled
  compiled spec is a builder state, and compiling it again gives a spec that agrees with
  the first one on every field the decompiler covers.
\<close>

theorem round_trip_covered:
  assumes "list_all nonEmptyExpression (bs_transforms state)"
    and "plainTooltip (en_tooltip (bs_encodings state)) dataFields"
  shows "\<exists>spec'. recompile state dataFields = Some spec'
     \<and> coveredFields spec' = coveredFields (buildSpec state dataFields)"
proof -
  let ?S = "buildSpec state dataFields"
  let ?E0 = "\<lparr> ed_x = buildChannel (en_x (bs_encodings state)), ed_y = buildChannel (en_y (bs_encodings state)),
      ed_color = buildChannel (en_color (bs_encodings state)), ed_size = buildChannel (en_size (bs_encodings state)),
      ed_tooltip = buildTooltip (en_tooltip (bs_encodings state)) dataFields \<rparr>"
  have enc: "sp_encoding ?S = Some (attachStack (bs_mark state) ?E0)"
    by (simp add: buildSpec_def Let_def)
  obtain m' where m': "parseMark ?S = Some m'" "mk_type m' = mk_type (bs_mark state)"
    "mk_point m' = mk_point (bs_mark state)"
    "mk_stacked m' = (case stackOf (ed_y (attachStack (bs_mark state) ?E0)) of
                    Some s \<Rightarrow> Some (Val s)
                  | None \<Rightarrow> (case stackOf (ed_x (attachStack (bs_mark state) ?E0)) of Some s \<Rightarrow> Some (Val s) | None \<Rightarrow> Some Null))"
    by (simp add: parseMark_def buildSpec_def Let_def)
  let ?e = "parseEncodings ?S"
  have "?S = ?S \<lparr> sp_encoding := Some (attachStack (bs_mark state) ?E0) \<rparr>"
    using enc by simp
  then have e: "\<lparr> ed_x = buildChannel (en_x ?e), ed_y = buildChannel (en_y ?e), ed_color = buildChannel (en_color ?e),
      ed_size = buildChannel (en_size ?e), ed_tooltip = buildTooltip (en_tooltip ?e) dataFields \<rparr> = ?E0"
    using parseEncodings_attach[OF assms(2), where spec = ?S and m = "bs_mark state"
        and x = "en_x (bs_encodings state)" and y = "en_y (bs_encodings state)"
        and co = "en_color (bs_encodings state)" and sz = "en_size (bs_encodings state)"]
    by (simp add: Let_def)
  have st: "attachStack m' ?E0 = attachStack (bs_mark state) ?E0"
    by (rule attach_again) (simp_all add: stackOf_built m')
  have tr: "buildTransforms (case sp_transform ?S of None \<Rightarrow> [] | Some ts \<Rightarrow> concat (map parseTransform ts))
      = buildTransforms (bs_transforms state)"
    using rebuild_transforms[OF assms(1)]
    by (auto simp: buildSpec_def Let_def buildTransforms_def)
  obtain b where b: "asBuilderState (parseSpecToBuilderState ?S) = Some b"
    "bs_mark b = m'" "bs_encodings b = ?e"
    "bs_transforms b = (case sp_transform ?S of None \<Rightarrow> [] | Some ts \<Rightarrow> concat (map parseTransform ts))"
    "bs_width b = pb_width (parseSpecToBuilderState ?S)"
    "bs_height b = pb_height (parseSpecToBuilderState ?S)"
    "bs_title b = (case pb_title (parseSpecToBuilderState ?S) of None \<Rightarrow> None | Some t \<Rightarrow> t)"
    "bs_description b = pb_description (parseSpecToBuilderState ?S)"
    "bs_background b = pb_background (parseSpecToBuilderState ?S)"
    using m'(1) by (simp add: asBuilderState_def parseSpecToBuilderState_def)
  have w: "sp_width (buildSpec b dataFields) = sp_width ?S" "sp_height (buildSpec b dataFields) = sp_height ?S"
    using b(5,6) by (auto simp: buildSpec_def Let_def parseSpecToBuilderState_def
        split: option.splits Dimension.splits)
  have ti: "sp_title (buildSpec b dataFields) = sp_title ?S"
    using b(7) by (auto simp: buildSpec_def Let_def parseSpecToBuilderState_def truthy_def
        split: option.splits)
  have de: "sp_description (buildSpec b dataFields) = sp_description ?S"
    "sp_background (buildSpec b dataFields) = sp_background ?S"
    using b(8,9) by (auto simp: buildSpec_def Let_def parseSpecToBuilderState_def truthy_def
        split: option.splits)
  have ma: "map_option markTypeAndPoint (sp_mark (buildSpec b dataFields)) = map_option markTypeAndPoint (sp_mark ?S)"
    using b(2) m'(2,3) by (simp add: buildSpec_def Let_def markTypeAndPoint_def)
  have en: "sp_encoding (buildSpec b dataFields) = sp_encoding ?S"
    unfolding enc using b(2,3) e st by (simp add: buildSpec_def Let_def)
  have tf: "sp_transform (buildSpec b dataFields) = sp_transform ?S"
    using b(4) tr by (simp add: buildSpec_def Let_def)
  show ?thesis
    using b(1) w ti de ma en tf by (simp add: recompile_def coveredFields_def)
qed

text \<open>The bar chart of App.tsx with one filter.\<close>

theorem round_trip_covered_witness:
  "list_all nonEmptyExpression (bs_transforms (sampleState \<lparr> bs_transforms := [TransformFilter ''datum.Sales > 100''] \<rparr>))
   \<and> plainTooltip (en_tooltip (bs_encodings (sampleState \<lparr> bs_transforms := [TransformFilter ''datum.Sales > 100''] \<rparr>)))
       sampleFields
   \<and> (\<exists>spec'. recompile (sampleState \<lparr> bs_transforms := [TransformFilter ''datum.Sales > 100''] \<rparr>) sampleFields
          = Some spec'
        \<and> coveredFields spec' = coveredFields
            (buildSpec (sampleState \<lparr> bs_transforms := [TransformFilter ''datum.Sales > 100''] \<rparr>) sampleFields))"
  using round_trip_covered[of "sampleState \<lparr> bs_transforms := [TransformFilter ''datum.Sales > 100''] \<rparr>" sampleFields]
  by (simp add: sample_defs nonEmptyExpression_def plainTooltip_def)

text \<open>
  Claim C1 as stated fails: a filter transform with the empty expression is compiled to
  \<open>{filter: ""}\<close>, which the decompiler skips as falsy, so the second compilation has no
  transform list.
\<close>

theorem round_trip_lost:
  "list_all filterOrCalculate (bs_transforms (sampleState \<lparr> bs_transforms := [TransformFilter []] \<rparr>))
   \<and> length (bs_transforms (sampleState \<lparr> bs_transforms := [TransformFilter []] \<rparr>)) \<le> 3
   \<and> sp_transform (buildSpec (sampleState \<lparr> bs_transforms := [TransformFilter []] \<rparr>) sampleFields)
        = Some [VLFilter []]
   \<and> map_option sp_transform (recompile (sampleState \<lparr> bs_transforms := [TransformFilter []] \<rparr>) sampleFields)
        = Some None
   \<and> map_option coveredFields (recompile (sampleState \<lparr> bs_transforms := [TransformFilter []] \<rparr>) sampleFields)
        \<noteq> Some (coveredFields (buildSpec (sampleState \<lparr> bs_transforms := [TransformFilter []] \<rparr>) sampleFields))"
  by (simp add: sample_defs filterOrCalculate_def recompile_def coveredFields_def buildSpec_def Let_def
      buildTransforms_def parseSpecToBuilderState_def asBuilderState_def parseMark_def)

section \<open>The custom-spec classifier\<close>

text \<open>
  Claim C8, as amended. A spec is custom exactly when it has a composition property, or more
  than three transforms, or a data source with a non-empty url.
\<close>

theorem isCustomSpec_iff:
  "isCustomSpec spec =
     (usesComposition spec \<or> transformCount spec > 3 \<or> (\<exists>url. dataUrl spec = Some url \<and> url \<noteq> []))"
  by (auto simp: isCustomSpec_def usesComposition_def transformCount_def dataUrl_def
      split: option.splits DataSpec.splits)

text \<open>
  A spec with a facet is custom, a mark-and-encoding spec with inline data is not, a spec with
  a data url is.
\<close>

theorem isCustomSpec_iff_witness:
  "isCustomSpec (buildSpec getDefaultBuilderState [] \<lparr> sp_facet := Some Opaque \<rparr>)
   \<and> \<not> isCustomSpec (buildSpec getDefaultBuilderState []
         \<lparr> sp_data := Some (DataValues [[(''a'', JNum 1)], [(''a'', JNum 2)]]) \<rparr>)
   \<and> isCustomSpec (buildSpec getDefaultBuilderState [] \<lparr> sp_data := Some (DataUrl ''data/cars.json'') \<rparr>)"
  using isCustomSpec_iff[of "buildSpec getDefaultBuilderState [] \<lparr> sp_facet := Some Opaque \<rparr>"]
    isCustomSpec_iff[of "buildSpec getDefaultBuilderState []
         \<lparr> sp_data := Some (DataValues [[(''a'', JNum 1)], [(''a'', JNum 2)]]) \<rparr>"]
    isCustomSpec_iff[of "buildSpec getDefaultBuilderState [] \<lparr> sp_data := Some (DataUrl ''data/cars.json'') \<rparr>"]
  by (simp add: usesComposition_def transformCount_def dataUrl_def buildSpec_def Let_def
      buildTransforms_def getDefaultBuilderState_def)

text \<open>
  Claim C8 as stated fails: a data source that is a url reference with the empty string as
  url is not classified custom.
\<close>

theorem isCustomSpec_empty_url:
  "isCustomSpec (buildSpec getDefaultBuilderState [] \<lparr> sp_data := Some (DataUrl []) \<rparr>)
   \<noteq> (usesComposition (buildSpec getDefaultBuilderState [] \<lparr> sp_data := Some (DataUrl []) \<rparr>)
      \<or> transformCount (buildSpec getDefaultBuilderState [] \<lparr> sp_data := Some (DataUrl []) \<rparr>) > 3
      \<or> dataUrl (buildSpec getDefaultBuilderState [] \<lparr> sp_data := Some (DataUrl []) \<rparr>) \<noteq> None)"
  by (simp add: isCustomSpec_def usesComposition_def transformCount_def dataUrl_def buildSpec_def Let_def
      buildTransforms_def getDefaultBuilderState_def)

section \<open>The plan applier\<close>

text \<open>
  Claim C10. When neither the x nor the y channel carries a field, a \<open>set_top_n\<close> operation
  without \<open>byField\<close> removes every topN transform and adds none.
\<close>

theorem set_top_n_without_field:
  assumes "\<not> truthy (fieldOf (en_x (bs_encodings builder)))"
    and "\<not> truthy (fieldOf (en_y (bs_encodings builder)))"
  shows "bs_transforms (applyPlan builder
            \<lparr> intentText = txt, confidence = c, operations = [SetTopN n None order] \<rparr> dataFields)
           = filter (\<lambda>t. \<not> isTopN t) (bs_transforms builder)
     \<and> list_all (\<lambda>t. \<not> isTopN t) (bs_transforms (applyPlan builder
            \<lparr> intentText = txt, confidence = c, operations = [SetTopN n None order] \<rparr> dataFields))"
  using assms
  by (auto simp: applyPlan_def truthy_def Let_def list_all_iff split: option.splits)

text \<open>On the default model with a filter and a top-5 transform, only the filter remains.\<close>

theorem set_top_n_without_field_witness:
  "bs_transforms (applyPlan
      (getDefaultBuilderState \<lparr> bs_transforms := [TransformFilter ''datum.Sales > 100'',
          TransformTopN 5 ''Sales'' Descending] \<rparr>)
      \<lparr> intentText = ''top 10'', confidence = 68 / 100, operations = [SetTopN 10 None (Some Descending)] \<rparr>
      sampleFields)
   = [TransformFilter ''datum.Sales > 100'']"
  using set_top_n_without_field[of "getDefaultBuilderState \<lparr> bs_transforms := [TransformFilter ''datum.Sales > 100'',
          TransformTopN 5 ''Sales'' Descending] \<rparr>" "''top 10''" "68 / 100" 10 "Some Descending" sampleFields]
  by (simp add: sample_defs truthy_def fieldOf_def isTopN_def)

section \<open>The matcher on literals, alternatives and repetitions\<close>

lemma matchFrom_lit:
  "matchFrom (Match (lit w) # k) prev s caps =
     (if prefix w s then matchFrom k (if w = [] then prev else Some (last w)) (drop (length w) s) caps
      else None)"
proof (induction w arbitrary: prev s rule: lit.induct)
  case 1
  then show ?case by simp
next
  case (2 c)
  then show ?case by (cases s) simp_all
next
  case (3 c d ds)
  show ?case
  proof (cases s)
    case Nil
    then show ?thesis by simp
  next
    case (Cons x xs)
    then show ?thesis using 3[of "Some x" xs] by (cases "x = c") simp_all
  qed
qed

lemma alts_lit_none:
  "ws \<noteq> [] \<Longrightarrow> \<forall>w \<in> set ws. \<not> prefix w s \<Longrightarrow>
   matchFrom (Match (alts (map lit ws)) # k) prev s caps = None"
proof (induction ws rule: list_nonempty_induct)
  case (single w)
  then show ?case by (simp add: matchFrom_lit)
next
  case (cons w ws)
  then obtain v vs where "ws = v # vs" by (cases ws) auto
  with cons show ?case by (simp add: matchFrom_lit)
qed

lemma alts_lit_exclusive:
  assumes "ws \<noteq> []"
    and "\<forall>w \<in> set ws. \<forall>w' \<in> set ws. prefix w s \<and> prefix w' s \<longrightarrow> w = w'"
  shows "matchFrom (Match (alts (map lit ws)) # k) prev s caps =
     (case find (\<lambda>w. prefix w s) ws of
        None \<Rightarrow> None
      | Some w \<Rightarrow> matchFrom k (if w = [] then prev else Some (last w)) (drop (length w) s) caps)"
  using assms
proof (induction ws rule: list_nonempty_induct)
  case (single w)
  show ?case by (simp add: matchFrom_lit)
next
  case (cons w ws)
  then obtain v vs where vs: "ws = v # vs" by (cases ws) blast+
  have a: "alts (map lit (w # ws)) = Alt (lit w) (alts (map lit ws))"
    unfolding vs by simp
  have unfold: "matchFrom (Match (alts (map lit (w # ws))) # k) prev s caps =
      (case matchFrom (Match (lit w) # k) prev s caps of
         Some r \<Rightarrow> Some r
       | None \<Rightarrow> matchFrom (Match (alts (map lit ws)) # k) prev s caps)"
    unfolding a by simp
  have sub: "\<forall>u \<in> set ws. \<forall>u' \<in> set ws. prefix u s \<and> prefix u' s \<longrightarrow> u = u'"
    using cons.prems by (meson list.set_intros(2))
  have IH: "matchFrom (Match (alts (map lit ws)) # k) prev s caps =
        (case find (\<lambda>w. prefix w s) ws of None \<Rightarrow> None
         | Some w \<Rightarrow> matchFrom k (if w = [] then prev else Some (last w)) (drop (length w) s) caps)"
    by (rule cons.IH[OF sub])
  show ?case
  proof (cases "prefix w s")
    case True
    have only: "\<And>u. u \<in> set ws \<Longrightarrow> prefix u s \<Longrightarrow> u = w"
      using cons.prems True by (meson list.set_intros)
    have none: "matchFrom (Match (alts (map lit ws)) # k) prev s caps = None"
      if n: "matchFrom (Match (lit w) # k) prev s caps = None"
    proof (cases "find (\<lambda>w. prefix w s) ws")
      case None
      then show ?thesis unfolding IH by simp
    next
      case (Some u)
      then have "u \<in> set ws" "prefix u s" by (auto simp: find_Some_iff)
      then have "u = w" by (rule only)
      have "matchFrom k (if w = [] then prev else Some (last w)) (drop (length w) s) caps = None"
        using n True by (simp add: matchFrom_lit)
      then show ?thesis unfolding IH Some \<open>u = w\<close> by simp
    qed
    have hd: "find (\<lambda>w. prefix w s) (w # ws) = Some w" using True by simp
    show ?thesis
    proof (cases "matchFrom (Match (lit w) # k) prev s caps")
      case None
      have "matchFrom k (if w = [] then prev else Some (last w)) (drop (length w) s) caps = None"
        using None True by (simp add: matchFrom_lit)
      then show ?thesis unfolding unfold hd using None none[OF None] by simp
    next
      case (Some r)
      have "matchFrom k (if w = [] then prev else Some (last w)) (drop (length w) s) caps = Some r"
        using Some True by (simp add: matchFrom_lit)
      then show ?thesis unfolding unfold hd using Some by simp
    qed
  next
    case False
    have l: "matchFrom (Match (lit w) # k) prev s caps = None"
      using False by (simp add: matchFrom_lit)
    have f: "find (\<lambda>w. prefix w s) (w # ws) = find (\<lambda>w. prefix w s) ws"
      using False by simp
    show ?thesis unfolding unfold f l IH by simp
  qed
qed

lemma star_skip:
  assumes "\<And>p x xs c. inClass cls x \<Longrightarrow> matchFrom k p (x # xs) c = None"
  shows "\<exists>p. matchFrom (Match (Star cls) # k) prev s caps = matchFrom k p (dropWhile (inClass cls) s) caps"
proof (induction s arbitrary: prev)
  case Nil
  have "matchFrom (Match (Star cls) # k) prev [] caps = matchFrom k prev (dropWhile (inClass cls) []) caps"
    by simp
  then show ?case by (rule exI)
next
  case (Cons x xs)
  show ?case
  proof (cases "inClass cls x")
    case True
    from Cons[of "Some x"] obtain p where
      p: "matchFrom (Match (Star cls) # k) (Some x) xs caps = matchFrom k p (dropWhile (inClass cls) xs) caps"
      by blast
    have "matchFrom (Match (Star cls) # k) prev (x # xs) caps =
        matchFrom k p (dropWhile (inClass cls) (x # xs)) caps"
      using True p assms[OF True, of prev xs caps]
      by (cases "matchFrom k p (dropWhile (inClass cls) xs) caps") simp_all
    then show ?thesis by (rule exI)
  next
    case False
    then have "matchFrom (Match (Star cls) # k) prev (x # xs) caps =
        matchFrom k prev (dropWhile (inClass cls) (x # xs)) caps"
      by simp
    then show ?thesis by (rule exI)
  qed
qed

lemma star_total:
  assumes "\<And>p t. \<exists>r. matchFrom k p t caps = Some r \<and> P r"
  shows "\<exists>r. matchFrom (Match (Star cls) # k) prev s caps = Some r \<and> P r"
proof (induction s arbitrary: prev)
  case Nil
  then show ?case using assms[of prev "[]"] by simp
next
  case (Cons x xs)
  from Cons[of "Some x"] obtain r where r: "matchFrom (Match (Star cls) # k) (Some x) xs caps = Some r" "P r"
    by blast
  show ?case
  proof (cases "inClass cls x")
    case True
    then show ?thesis using r by simp
  next
    case False
    then show ?thesis using assms[of prev "x # xs"] by simp
  qed
qed

lemma find_SomeD: "find P xs = Some x \<Longrightarrow> x \<in> set xs \<and> P x"
  by (induction xs) (auto split: if_splits)

lemma markAt_Nil: "markAt [] = None"
  by (simp add: markAt_def markWords_def)

lemma markAt_space:
  assumes "x \<in> set whiteSpace"
  shows "markAt (x # xs) = None"
proof -
  from assms have "x \<notin> set ''lbapcstr''"
    by (simp add: whiteSpace_def) (elim disjE; simp)
  then show ?thesis
    by (simp add: markAt_def markWords_def eq_commute[of _ x])
qed

lemma markWords_prefix_eq:
  "w \<in> set markWords \<Longrightarrow> w' \<in> set markWords \<Longrightarrow> prefix w w' \<Longrightarrow> w = w'"
  by (simp add: markWords_def) (elim disjE; simp)

lemma changePhrases_prefix_eq:
  "w \<in> set changePhrases \<Longrightarrow> w' \<in> set changePhrases \<Longrightarrow> prefix w w' \<Longrightarrow> w = w'"
  by (simp add: changePhrases_def) (elim disjE; simp)

lemma markWords_exclusive:
  "\<forall>w \<in> set markWords. \<forall>w' \<in> set markWords. prefix w s \<and> prefix w' s \<longrightarrow> w = w'"
proof (intro ballI impI)
  fix w w' assume w: "w \<in> set markWords" and w': "w' \<in> set markWords" and p: "prefix w s \<and> prefix w' s"
  from p have "prefix w w' \<or> prefix w' w" using prefix_same_cases[of w s w'] by simp
  then show "w = w'"
  proof
    assume "prefix w w'"
    then show ?thesis by (rule markWords_prefix_eq[OF w w'])
  next
    assume "prefix w' w"
    then have "w' = w" by (rule markWords_prefix_eq[OF w' w])
    then show ?thesis by simp
  qed
qed

lemma changePhrases_exclusive:
  "\<forall>w \<in> set changePhrases. \<forall>w' \<in> set changePhrases. prefix w s \<and> prefix w' s \<longrightarrow> w = w'"
proof (intro ballI impI)
  fix w w' assume w: "w \<in> set changePhrases" and w': "w' \<in> set changePhrases" and p: "prefix w s \<and> prefix w' s"
  from p have "prefix w w' \<or> prefix w' w" using prefix_same_cases[of w s w'] by simp
  then show "w = w'"
  proof
    assume "prefix w w'"
    then show ?thesis by (rule changePhrases_prefix_eq[OF w w'])
  next
    assume "prefix w' w"
    then have "w' = w" by (rule changePhrases_prefix_eq[OF w' w])
    then show ?thesis by simp
  qed
qed

lemma markWords_nonempty: "w \<in> set markWords \<Longrightarrow> w \<noteq> []"
  by (simp add: markWords_def) (elim disjE; simp)

lemma changePhrases_nonempty: "w \<in> set changePhrases \<Longrightarrow> w \<noteq> []"
  by (simp add: changePhrases_def) (elim disjE; simp)

lemma markAt_word:
  assumes "markAt s = Some w"
  shows "w \<in> set markWords \<and> prefix w s \<and> w \<noteq> []"
proof -
  from assms have "find (\<lambda>w. prefix w s) markWords = Some w" by (simp add: markAt_def)
  then have a: "w \<in> set markWords \<and> prefix w s" by (rule find_SomeD)
  then have "w \<noteq> []" using markWords_nonempty by simp
  with a show ?thesis by simp
qed

lemma take_prefix:
  assumes "prefix w s"
  shows "take (length s - length (drop (length w) s)) s = w"
proof -
  from assms obtain t where "s = w @ t" by (rule prefixE)
  then show ?thesis by simp
qed

lemma chart_total:
  "\<exists>r. matchFrom [Match (Opt (Group 3 (lit ''chart'')))] p t caps = Some r \<and> map_of (snd r) 2 = map_of caps 2"
proof -
  have g: "matchFrom [Match (Opt (Group 3 (lit ''chart'')))] p t caps =
      (case matchFrom (Match (lit ''chart'') # [Close 3 t]) p t caps of
         Some r \<Rightarrow> Some r
       | None \<Rightarrow> Some (t, caps))"
    by (simp del: lit.simps cong: option.case_cong)
  show ?thesis
  proof (cases "prefix ''chart'' t")
    case True
    have "matchFrom (Match (lit ''chart'') # [Close 3 t]) p t caps =
        Some (drop (length ''chart'') t,
          (3, take (length t - length (drop (length ''chart'') t)) t) # caps)"
      unfolding matchFrom_lit using True by simp
    then show ?thesis unfolding g by simp
  next
    case False
    have "matchFrom (Match (lit ''chart'') # [Close 3 t]) p t caps = None"
      unfolding matchFrom_lit using False by simp
    then show ?thesis unfolding g by simp
  qed
qed

lemma afterMark_total:
  "\<exists>r. matchFrom [Match afterMark] p s caps = Some r \<and> map_of (snd r) 2 = map_of caps 2"
proof -
  have "\<exists>r. matchFrom (Match (Star space) # [Match (Opt (Group 3 (lit ''chart'')))]) p s caps = Some r
      \<and> map_of (snd r) 2 = map_of caps 2"
    by (rule star_total) (rule chart_total)
  then show ?thesis by (simp add: afterMark_def)
qed

lemma markWords_ne: "markWords \<noteq> []"
  by (simp add: markWords_def)

lemma changePhrases_ne: "changePhrases \<noteq> []"
  by (simp add: changePhrases_def)

lemma fromMark_eq:
  "matchFrom [Match fromMark] p s caps =
     (case markAt s of
        None \<Rightarrow> None
      | Some w \<Rightarrow> matchFrom [Match afterMark] (Some (last w)) (drop (length w) s) ((2, w) # caps))"
proof -
  have "matchFrom [Match fromMark] p s caps =
      matchFrom (Match (alts (map lit markWords)) # [Close 2 s, Match afterMark]) p s caps"
    by (simp add: fromMark_def)
  also have "\<dots> = (case find (\<lambda>w. prefix w s) markWords of
        None \<Rightarrow> None
      | Some w \<Rightarrow> matchFrom [Close 2 s, Match afterMark] (if w = [] then p else Some (last w))
          (drop (length w) s) caps)"
    by (rule alts_lit_exclusive[OF markWords_ne markWords_exclusive])
  also have "\<dots> = (case markAt s of
        None \<Rightarrow> None
      | Some w \<Rightarrow> matchFrom [Match afterMark] (Some (last w)) (drop (length w) s) ((2, w) # caps))"
  proof (cases "markAt s")
    case None
    then show ?thesis by (simp add: markAt_def)
  next
    case (Some w)
    from markAt_word[OF Some] have w: "prefix w s" "w \<noteq> []" by simp_all
    show ?thesis using Some w take_prefix[OF w(1)] by (simp add: markAt_def)
  qed
  finally show ?thesis .
qed

lemma fromMark_None: "markAt s = None \<Longrightarrow> matchFrom [Match fromMark] p s caps = None"
  by (simp add: fromMark_eq)

lemma fromMark_Some:
  assumes "markAt s = Some w"
  shows "\<exists>r. matchFrom [Match fromMark] p s caps = Some r \<and> map_of (snd r) 2 = Some w"
proof -
  from afterMark_total[of "Some (last w)" "drop (length w) s" "(2, w) # caps"]
  obtain r where "matchFrom [Match afterMark] (Some (last w)) (drop (length w) s) ((2, w) # caps) = Some r"
    "map_of (snd r) 2 = map_of ((2, w) # caps) 2" by blast
  then show ?thesis using assms by (simp add: fromMark_eq)
qed

lemma fromSpaces_eq:
  "\<exists>p'. matchFrom [Match fromSpaces] p s caps = matchFrom [Match fromMark] p' (skipSpaces s) caps"
proof -
  have "\<exists>p'. matchFrom (Match (Star space) # [Match fromMark]) p s caps =
      matchFrom [Match fromMark] p' (dropWhile (inClass space) s) caps"
  proof (rule star_skip)
    fix q x xs c assume "inClass space x"
    then have "x \<in> set whiteSpace" by (simp add: space_def)
    then show "matchFrom [Match fromMark] q (x # xs) c = None"
      by (simp add: fromMark_None markAt_space)
  qed
  then show ?thesis by (simp add: fromSpaces_def skipSpaces_def)
qed

lemma fromSpaces_None:
  "markAt (skipSpaces s) = None \<Longrightarrow> matchFrom [Match fromSpaces] p s caps = None"
  using fromSpaces_eq[of p s caps] by (auto simp: fromMark_None)

lemma fromSpaces_Some:
  assumes "markAt (skipSpaces s) = Some w"
  shows "\<exists>r. matchFrom [Match fromSpaces] p s caps = Some r \<and> map_of (snd r) 2 = Some w"
proof -
  from fromSpaces_eq[of p s caps] obtain p' where
    "matchFrom [Match fromSpaces] p s caps = matchFrom [Match fromMark] p' (skipSpaces s) caps" by blast
  then show ?thesis using fromMark_Some[OF assms, of p' caps] by simp
qed

lemma markPattern_eq:
  "markPattern = Seq (Opt (Group 1 (alts (map lit changePhrases)))) fromSpaces"
  by (simp add: markPattern_def fromSpaces_def fromMark_def afterMark_def)

lemma phraseAt_word:
  assumes "phraseAt s = Some ph"
  shows "ph \<in> set changePhrases \<and> prefix ph s \<and> ph \<noteq> []"
proof -
  from assms have "find (\<lambda>w. prefix w s) changePhrases = Some ph" by (simp add: phraseAt_def)
  then have a: "ph \<in> set changePhrases \<and> prefix ph s" by (rule find_SomeD)
  then have "ph \<noteq> []" using changePhrases_nonempty by simp
  with a show ?thesis by simp
qed

lemma phrase_eq:
  "matchFrom [Match (Group 1 (alts (map lit changePhrases))), Match fromSpaces] p s caps =
     (case phraseAt s of
        None \<Rightarrow> None
      | Some ph \<Rightarrow> matchFrom [Match fromSpaces] (Some (last ph)) (drop (length ph) s) ((1, ph) # caps))"
proof -
  have "matchFrom [Match (Group 1 (alts (map lit changePhrases))), Match fromSpaces] p s caps =
      matchFrom (Match (alts (map lit changePhrases)) # [Close 1 s, Match fromSpaces]) p s caps"
    by simp
  also have "\<dots> = (case find (\<lambda>w. prefix w s) changePhrases of
        None \<Rightarrow> None
      | Some w \<Rightarrow> matchFrom [Close 1 s, Match fromSpaces] (if w = [] then p else Some (last w))
          (drop (length w) s) caps)"
    by (rule alts_lit_exclusive[OF changePhrases_ne changePhrases_exclusive])
  also have "\<dots> = (case phraseAt s of
        None \<Rightarrow> None
      | Some ph \<Rightarrow> matchFrom [Match fromSpaces] (Some (last ph)) (drop (length ph) s) ((1, ph) # caps))"
  proof (cases "phraseAt s")
    case None
    then show ?thesis by (simp add: phraseAt_def)
  next
    case (Some ph)
    from phraseAt_word[OF Some] have w: "prefix ph s" "ph \<noteq> []" by simp_all
    show ?thesis using Some w take_prefix[OF w(1)] by (simp add: phraseAt_def)
  qed
  finally show ?thesis .
qed

text \<open>The match at one position.\<close>

lemma markPattern_at:
  "matchFrom [Match markPattern] p s [] =
     (case (case phraseAt s of
              None \<Rightarrow> None
            | Some ph \<Rightarrow> matchFrom [Match fromSpaces] (Some (last ph)) (drop (length ph) s) [(1, ph)]) of
        Some r \<Rightarrow> Some r
      | None \<Rightarrow> matchFrom [Match fromSpaces] p s [])"
proof -
  have "matchFrom [Match markPattern] p s [] =
     (case matchFrom [Match (Group 1 (alts (map lit changePhrases))), Match fromSpaces] p s [] of
        Some r \<Rightarrow> Some r
      | None \<Rightarrow> matchFrom [Match fromSpaces] p s [])"
    unfolding markPattern_eq by simp
  then show ?thesis unfolding phrase_eq .
qed

lemma markPattern_Some:
  assumes "matchFrom [Match markPattern] p s [] = Some r"
  shows "\<exists>w. map_of (snd r) 2 = Some w \<and>
     (markAt (skipSpaces s) = Some w
      \<or> (\<exists>ph. phraseAt s = Some ph \<and> markAt (skipSpaces (drop (length ph) s)) = Some w))"
proof (cases "case phraseAt s of
              None \<Rightarrow> None
            | Some ph \<Rightarrow> matchFrom [Match fromSpaces] (Some (last ph)) (drop (length ph) s) [(1, ph)]")
  case None
  then have r: "matchFrom [Match fromSpaces] p s [] = Some r"
    using assms unfolding markPattern_at by simp
  show ?thesis
  proof (cases "markAt (skipSpaces s)")
    case None
    then show ?thesis using r fromSpaces_None[of s p "[]"] by simp
  next
    case (Some w)
    from fromSpaces_Some[OF Some, of p "[]"] r have "map_of (snd r) 2 = Some w" by auto
    then show ?thesis using Some by blast
  qed
next
  case (Some r')
  then have rr: "r' = r" using assms unfolding markPattern_at by simp
  from Some obtain ph where ph: "phraseAt s = Some ph"
    "matchFrom [Match fromSpaces] (Some (last ph)) (drop (length ph) s) [(1, ph)] = Some r'"
    by (cases "phraseAt s") simp_all
  show ?thesis
  proof (cases "markAt (skipSpaces (drop (length ph) s))")
    case None
    then show ?thesis using ph(2) fromSpaces_None[of "drop (length ph) s" "Some (last ph)" "[(1, ph)]"] by simp
  next
    case (Some w)
    from fromSpaces_Some[OF Some, of "Some (last ph)" "[(1, ph)]"] ph(2) rr
    have "map_of (snd r) 2 = Some w" by auto
    then show ?thesis using Some ph(1) by blast
  qed
qed

lemma skipSpaces_letter: "markAt s = Some w \<Longrightarrow> skipSpaces s = s"
proof (cases s)
  case Nil
  then show ?thesis by (simp add: skipSpaces_def)
next
  case (Cons x xs)
  assume m: "markAt s = Some w"
  have "x \<notin> set whiteSpace"
  proof
    assume "x \<in> set whiteSpace"
    then have "markAt (x # xs) = None" by (rule markAt_space)
    with m Cons show False by simp
  qed
  then show ?thesis using Cons by (simp add: skipSpaces_def space_def)
qed

lemma markPattern_matches:
  assumes "markAt s = Some w"
  shows "matchFrom [Match markPattern] p s [] \<noteq> None"
proof -
  have "markAt (skipSpaces s) = Some w" using assms skipSpaces_letter[OF assms] by simp
  from fromSpaces_Some[OF this, of p "[]"] obtain r where "matchFrom [Match fromSpaces] p s [] = Some r"
    by blast
  then show ?thesis unfolding markPattern_at by (simp split: option.splits)
qed

lemma first_Cons:
  "markAt (x # xs) = None \<Longrightarrow> firstOccurrence markWords (x # xs) = firstOccurrence markWords xs"
  by (simp add: markAt_def)

lemma first_here: "markAt s = Some w \<Longrightarrow> firstOccurrence markWords s = Some w"
  by (cases s) (simp_all add: markAt_def)

lemma first_after_spaces:
  "markAt (skipSpaces t) = Some w \<Longrightarrow> firstOccurrence markWords t = Some w"
proof (induction t)
  case Nil
  then show ?case by (simp add: skipSpaces_def markAt_Nil)
next
  case (Cons x xs)
  show ?case
  proof (cases "x \<in> set whiteSpace")
    case True
    then have "skipSpaces (x # xs) = skipSpaces xs" by (simp add: skipSpaces_def space_def)
    with Cons have "firstOccurrence markWords xs = Some w" by simp
    then show ?thesis using first_Cons[OF markAt_space[OF True, of xs]] by simp
  next
    case False
    then have "skipSpaces (x # xs) = x # xs" by (simp add: skipSpaces_def space_def)
    with Cons.prems have "markAt (x # xs) = Some w" by simp
    then show ?thesis by (rule first_here)
  qed
qed

text \<open>No mark word begins inside a change phrase that white space and a mark word follow.\<close>

lemma no_mark_letter:
  assumes "markAt (skipSpaces t) = Some w" and "c \<notin> set ''lbapcstr''" and "c \<notin> set whiteSpace"
  shows "\<not> prefix (c # u) t"
proof
  assume p: "prefix (c # u) t"
  then obtain v where t: "t = c # v" by (cases t) simp_all
  then have "skipSpaces t = t" using assms(3) by (simp add: skipSpaces_def space_def)
  with assms(1) t have "markAt (c # v) = Some w" by simp
  moreover have "markAt (c # v) = None"
    using assms(2) by (simp add: markAt_def markWords_def eq_commute[of _ c])
  ultimately show False by simp
qed

lemma after_t:
  assumes "markAt (skipSpaces t) = Some w"
  shows "markAt (CHR ''t'' # t) = None"
proof -
  have i: "\<not> prefix ''ick'' t"
    by (rule no_mark_letter[OF assms]) (simp_all add: whiteSpace_def)
  have e: "\<not> prefix ''ext'' t"
    by (rule no_mark_letter[OF assms]) (simp_all add: whiteSpace_def)
  show ?thesis using i e by (simp add: markAt_def markWords_def)
qed

lemma markAt_not_letter: "c \<notin> set ''lbapcstr'' \<Longrightarrow> markAt (c # u) = None"
  by (simp add: markAt_def markWords_def eq_commute[of _ c])

lemma phrase_skip:
  assumes "markAt (skipSpaces t) = Some w" and ph: "ph \<in> set changePhrases"
  shows "firstOccurrence markWords (ph @ t) = firstOccurrence markWords t"
proof -
  have i: "\<not> prefix ''ick'' t"
    by (rule no_mark_letter[OF assms(1)]) (simp_all add: whiteSpace_def)
  have e: "\<not> prefix ''ext'' t"
    by (rule no_mark_letter[OF assms(1)]) (simp_all add: whiteSpace_def)
  from ph show ?thesis
    by (simp add: changePhrases_def) (elim disjE; simp add: markWords_def i e)
qed

lemma first_after_phrase:
  assumes "phraseAt s = Some ph" and "markAt (skipSpaces (drop (length ph) s)) = Some w"
  shows "firstOccurrence markWords s = Some w"
proof -
  from phraseAt_word[OF assms(1)] have ph: "ph \<in> set changePhrases" "prefix ph s" by simp_all
  from ph(2) obtain t where t: "s = ph @ t" by (rule prefixE)
  then have d: "drop (length ph) s = t" by simp
  have "firstOccurrence markWords s = firstOccurrence markWords t"
    unfolding t using assms(2) ph(1) unfolding d by (rule phrase_skip)
  also have "\<dots> = Some w"
    using assms(2) unfolding d by (rule first_after_spaces)
  finally show ?thesis .
qed

text \<open>Group 2 of the leftmost match is the mark word that occurs first.\<close>

lemma search_first_mark:
  "firstOccurrence markWords s = Some w \<Longrightarrow>
   \<exists>r. searchFrom markPattern p s = Some r \<and> capture r 2 = Some w"
proof (induction s arbitrary: p)
  case Nil
  then show ?case by (simp add: markWords_def)
next
  case (Cons x xs)
  show ?case
  proof (cases "matchFrom [Match markPattern] p (x # xs) []")
    case None
    have "markAt (x # xs) = None"
    proof (cases "markAt (x # xs)")
      case (Some m)
      from markPattern_matches[OF Some, of p] None show ?thesis by simp
    qed simp
    then have "firstOccurrence markWords xs = Some w"
      using Cons.prems first_Cons by simp
    from Cons.IH[OF this, of "Some x"] obtain r where
      "searchFrom markPattern (Some x) xs = Some r" "capture r 2 = Some w" by blast
    then show ?thesis using None by simp
  next
    case (Some r)
    obtain rest caps where r: "r = (rest, caps)" by (cases r)
    from markPattern_Some[OF Some] obtain m where m: "map_of (snd r) 2 = Some m"
      "markAt (skipSpaces (x # xs)) = Some m
       \<or> (\<exists>ph. phraseAt (x # xs) = Some ph \<and> markAt (skipSpaces (drop (length ph) (x # xs))) = Some m)"
      by blast
    from m(2) have "firstOccurrence markWords (x # xs) = Some m"
      using first_after_spaces first_after_phrase by blast
    with Cons.prems have "m = w" by simp
    then show ?thesis using Some r m(1) by (simp add: capture_def)
  qed
qed

lemma find_exists: "w \<in> set ws \<Longrightarrow> P w \<Longrightarrow> find P ws \<noteq> None"
  by (induction ws) (auto split: if_splits)

lemma includes_first:
  "w \<in> set ws \<Longrightarrow> includesStr s w \<Longrightarrow> firstOccurrence ws s \<noteq> None"
proof (induction s)
  case Nil
  then have "prefix w []" by simp
  with Nil(1) have "find (\<lambda>w. prefix w []) ws \<noteq> None" by (rule find_exists)
  then show ?case by simp
next
  case (Cons x xs)
  show ?case
  proof (cases "find (\<lambda>w. prefix w (x # xs)) ws")
    case None
    have "\<not> prefix w (x # xs)"
    proof
      assume "prefix w (x # xs)"
      with Cons.prems(1) have "find (\<lambda>w. prefix w (x # xs)) ws \<noteq> None" by (rule find_exists)
      with None show False by simp
    qed
    with Cons.prems(2) have "includesStr xs w" by simp
    with Cons.IH Cons.prems(1) have "firstOccurrence ws xs \<noteq> None" by simp
    then show ?thesis using None by simp
  next
    case (Some m)
    then show ?thesis by simp
  qed
qed

section \<open>The intent planner\<close>

lemma planMark_first:
  assumes "firstOccurrence markWords lower = Some m"
  shows "planMark lower =
     [SetMark m (Some (noMarkOptions \<lparr> mo_point := Some (includesStr lower ''with points'') \<rparr>))]"
proof -
  from search_first_mark[OF assms, of None] obtain r where
    "searchFrom markPattern None lower = Some r" "capture r 2 = Some m" by blast
  then show ?thesis by (simp add: planMark_def match_def)
qed

text \<open>
  Claim C9. When the trimmed, lower-cased command contains one of the ten mark words anywhere,
  inside a longer word or not, the plan starts with a \<open>set_mark\<close> operation whose mark is the
  mark word that occurs first in that text; no word boundary and no change phrase is needed.
\<close>

theorem mark_word_anywhere:
  assumes "w \<in> set markWords" and "includesStr (normStr (trim input)) w"
  shows "\<exists>m rest. firstOccurrence markWords (normStr (trim input)) = Some m
     \<and> operations (parseNLToPlan input fieldNames builder) =
        SetMark m (Some (noMarkOptions \<lparr> mo_point := Some (includesStr (normStr (trim input)) ''with points'') \<rparr>))
        # rest"
proof -
  from includes_first[OF assms] obtain m where m: "firstOccurrence markWords (normStr (trim input)) = Some m"
    by blast
  have "\<exists>rest. operations (parseNLToPlan input fieldNames builder) =
        SetMark m (Some (noMarkOptions \<lparr> mo_point := Some (includesStr (normStr (trim input)) ''with points'') \<rparr>))
        # rest"
    unfolding parseNLToPlan_def Let_def planMark_first[OF m] by simp
  with m show ?thesis by blast
qed

text \<open>"a correct answer" contains "rect" inside "correct": the plan sets the rect mark.\<close>

theorem mark_word_anywhere_witness:
  "''rect'' \<in> set markWords \<and> includesStr (normStr (trim ''a correct answer'')) ''rect''
   \<and> (\<exists>rest. operations (parseNLToPlan ''a correct answer'' [] getDefaultBuilderState) =
        SetMark ''rect'' (Some (noMarkOptions \<lparr> mo_point := Some False \<rparr>)) # rest)"
proof -
  have a: "''rect'' \<in> set markWords" by (simp add: markWords_def)
  have n: "normStr (trim ''a correct answer'') = ''a correct answer''" by code_simp
  have b: "includesStr ''a correct answer'' ''rect''" by code_simp
  have f: "firstOccurrence markWords ''a correct answer'' = Some ''rect''" by code_simp
  have p: "includesStr ''a correct answer'' ''with points'' = False" by code_simp
  from mark_word_anywhere[OF a, of "''a correct answer''" "[]" getDefaultBuilderState] b n f p
  show ?thesis using a by simp
qed

text \<open>
  Claim C6, as amended. For the command "top 10 by Sales" with the fields Category, Sales and
  Region, and any builder state, the plan is the single operation \<open>set_top_n\<close> with n = 10,
  byField = Sales and descending order, and the confidence is the double that
  \<open>0.6 + 1 * 0.08\<close> evaluates to, \<open>6124895493223874 / 2^53\<close> (printed 0.6799999999999999), which
  is less than \<open>2^(-53)\<close> away from 0.68.
\<close>

theorem top_n_scenario:
  "parseNLToPlan ''top 10 by Sales'' [''Category'', ''Sales'', ''Region''] builder =
     \<lparr> intentText = ''top 10 by Sales'', confidence = 6124895493223874 / 2 ^ 53,
       operations = [SetTopN 10 (Some ''Sales'') (Some Descending)] \<rparr>
   \<and> \<bar>confidence (parseNLToPlan ''top 10 by Sales'' [''Category'', ''Sales'', ''Region''] builder) - 68 / 100\<bar>
       < 1 / 2 ^ 53"
  by code_simp

text \<open>
  Claim C6 as stated fails on the confidence: it is neither 0.68 nor the double nearest to
  0.68, which is \<open>6124895493223875 / 2^53\<close>.
\<close>

theorem top_n_confidence:
  "confidence (parseNLToPlan ''top 10 by Sales'' [''Category'', ''Sales'', ''Region''] getDefaultBuilderState)
     \<noteq> 68 / 100
   \<and> confidence (parseNLToPlan ''top 10 by Sales'' [''Category'', ''Sales'', ''Region''] getDefaultBuilderState)
     \<noteq> roundToDouble (68 / 100)
   \<and> roundToDouble (68 / 100) = 6124895493223875 / 2 ^ 53"
  by code_simp

section \<open>Field inference\<close>

text \<open>
  For up to 100 samples the double products compare with a count as the exact 60% and 50% do:
  the product by 0.6 has the integer part of the exact one, and the product by 0.5 is exact.
\<close>

lemma floors_60:
  "list_all (\<lambda>n. \<lfloor>doubleMul (rat_of_nat n) (roundToDouble (6 / 10))\<rfloor> = \<lfloor>rat_of_nat n * (6 / 10)\<rfloor>)
     [0 ..< 101]"
  by code_simp

lemma halves_50:
  "list_all (\<lambda>n. doubleMul (rat_of_nat n) (roundToDouble (5 / 10)) = rat_of_nat n * (5 / 10)) [0 ..< 101]"
  by code_simp

lemma gt_floor: "(rat_of_nat a > x) = (int a > \<lfloor>x\<rfloor>)"
  by (simp add: floor_less_iff)

lemma more_than_60:
  assumes "n \<le> 100"
  shows "(rat_of_nat a > doubleMul (rat_of_nat n) (roundToDouble (6 / 10))) = (100 * a > 60 * n)"
proof -
  from assms have "n \<in> set [0 ..< 101]" by simp
  with floors_60 have "\<lfloor>doubleMul (rat_of_nat n) (roundToDouble (6 / 10))\<rfloor> = \<lfloor>rat_of_nat n * (6 / 10)\<rfloor>"
    unfolding list_all_iff by blast
  then have "(rat_of_nat a > doubleMul (rat_of_nat n) (roundToDouble (6 / 10)))
      = (rat_of_nat a > rat_of_nat n * (6 / 10))"
    unfolding gt_floor by simp
  also have "\<dots> = (rat_of_nat (6 * n) < rat_of_nat (10 * a))"
    by (simp add: field_simps)
  also have "\<dots> = (6 * n < 10 * a)" by (simp only: of_nat_less_iff)
  also have "\<dots> = (100 * a > 60 * n)" by arith
  finally show ?thesis .
qed

lemma less_than_50:
  assumes "n \<le> 100"
  shows "(rat_of_nat a < doubleMul (rat_of_nat n) (roundToDouble (5 / 10))) = (100 * a < 50 * n)"
proof -
  from assms have "n \<in> set [0 ..< 101]" by simp
  with halves_50 have h: "doubleMul (rat_of_nat n) (roundToDouble (5 / 10)) = rat_of_nat n * (5 / 10)"
    unfolding list_all_iff by blast
  have "(rat_of_nat a < rat_of_nat n * (5 / 10)) = (rat_of_nat (2 * a) < rat_of_nat n)"
    by (simp add: field_simps)
  also have "\<dots> = (2 * a < n)" by (simp only: of_nat_less_iff)
  also have "\<dots> = (100 * a < 50 * n)" by arith
  finally show ?thesis unfolding h .
qed

text \<open>A callback that throws on no element makes \<open>map\<close> and \<open>filter\<close> return.\<close>

lemma mapThrowing_Some:
  "(\<And>x. x \<in> set xs \<Longrightarrow> f x = Some (g x)) \<Longrightarrow> mapThrowing f xs = Some (map g xs)"
  by (induction xs) (simp_all add: mapThrowing_def)

lemma filterThrowing_Some:
  "(\<And>x. x \<in> set xs \<Longrightarrow> p x = Some (q x)) \<Longrightarrow> filterThrowing p xs = Some (filter q xs)"
  by (induction xs) simp_all

lemma isDateLike_Some:
  "notNullish v \<Longrightarrow> toStr v = Some (str v) \<Longrightarrow> isDateLike toStr parses v = Some (dateValue str parses v)"
  by (simp add: isDateLike_def dateValue_def)

lemma inferFieldType_spec:
  assumes "\<And>v. v \<in> set samples \<Longrightarrow> notNullish v \<Longrightarrow> toStr v = Some (str v)"
    and "length samples \<le> 100"
  shows "inferFieldType toStr parses samples = Some (typeBySpec str parses samples)"
proof -
  let ?vs = "filter notNullish samples"
  have d: "filterThrowing (isDateLike toStr parses) ?vs = Some (filter (dateValue str parses) ?vs)"
    by (rule filterThrowing_Some) (simp add: isDateLike_Some assms(1))
  have m: "mapThrowing toStr ?vs = Some (map str ?vs)"
    by (rule mapThrowing_Some) (simp add: assms(1))
  have "length ?vs \<le> length samples" by simp
  from this assms(2) have n: "length ?vs \<le> 100" by (rule order_trans)
  show ?thesis
    unfolding inferFieldType_def Let_def more_than_60[OF n] less_than_50[OF n] d m
    by (cases "?vs = []") (simp_all add: typeBySpec_def Let_def length_remdups_card_conv)
qed

lemma calculateFieldStats_Some:
  assumes "\<And>v. v \<in> set samples \<Longrightarrow> notNullish v \<Longrightarrow> toStr v = Some (str v)"
  shows "calculateFieldStats toStr samples type \<noteq> None"
proof -
  have "mapThrowing toStr (filter notNullish samples) = Some (map str (filter notNullish samples))"
    by (rule mapThrowing_Some) (simp add: assms)
  then show ?thesis by (simp add: calculateFieldStats_def Let_def)
qed

lemma stringifies_sample:
  assumes "stringifies toStr str rows names" and "name \<in> set names"
    and "v \<in> set (map (\<lambda>r. property r name) rows)" and "notNullish v"
  shows "toStr v = Some (str v)"
proof -
  from assms(3) obtain r where r: "r \<in> set rows" "v = property r name" by auto
  from assms(1) r(1) assms(2)
  have "\<not> notNullish (property r name) \<or> toStr (property r name) = Some (str (property r name))"
    by (simp add: stringifies_def list_all_iff)
  with r(2) assms(4) show ?thesis by simp
qed

text \<open>
  Claim C5, as amended. For a non-empty list of rows whose values stringify, \<open>inferFields\<close>
  returns one field per key of the first row, in the order of its keys, and each is classified
  by the thresholds of the specification over the values that the first 100 rows have for it.
\<close>

theorem inferFields_first_row:
  assumes "stringifies toStr str (take 100 (first # others)) (map fst first)"
  shows "map_option (map (\<lambda>f. (df_name f, df_inferredType f))) (inferFields toStr parses (first # others))
     = Some (map (\<lambda>name. (name, typeBySpec str parses (map (\<lambda>r. property r name) (take 100 (first # others)))))
         (map fst first))"
proof -
  let ?rows = "take 100 (first # others)"
  let ?samples = "\<lambda>name. map (\<lambda>r. property r name) ?rows"
  let ?type = "\<lambda>name. typeBySpec str parses (?samples name)"
  let ?field = "\<lambda>name. \<lparr> df_name = name, df_inferredType = ?type name,
      df_stats = the (calculateFieldStats toStr (?samples name) (?type name)) \<rparr>"
  have "inferFields toStr parses (first # others) = Some (map ?field (map fst first))"
    unfolding inferFields_def list.case
  proof (rule mapThrowing_Some)
    fix name assume n: "name \<in> set (map fst first)"
    have s: "\<And>v. v \<in> set (?samples name) \<Longrightarrow> notNullish v \<Longrightarrow> toStr v = Some (str v)"
      using assms n by (rule stringifies_sample)
    have "length (?samples name) \<le> 100"
      by (simp only: length_map length_take min.cobounded2)
    with s have t: "inferFieldType toStr parses (?samples name) = Some (?type name)"
      by (rule inferFieldType_spec)
    have "calculateFieldStats toStr (?samples name) (?type name) \<noteq> None"
      using s by (rule calculateFieldStats_Some)
    then obtain stats where "calculateFieldStats toStr (?samples name) (?type name) = Some stats"
      by (cases "calculateFieldStats toStr (?samples name) (?type name)") simp_all
    with t show "(let sampleValues = map (\<lambda>r. property r name) (take 100 (first # others))
          in case inferFieldType toStr parses sampleValues of
               None \<Rightarrow> None
             | Some inferredType \<Rightarrow>
                 (case calculateFieldStats toStr sampleValues inferredType of
                    None \<Rightarrow> None
                  | Some stats \<Rightarrow>
                      Some \<lparr> df_name = name, df_inferredType = inferredType, df_stats = stats \<rparr>))
        = Some (?field name)"
      by (simp add: Let_def)
  qed
  then show ?thesis by (simp add: comp_def)
qed

text \<open>
  Claim C5 as stated fails: a field that the second row has and the first has not is observed
  in the first 100 rows, and gets no \<open>DataField\<close>.
\<close>

theorem inferFields_later_key:
  "''b'' \<in> set (map fst ([[(''a'', JNum 1)], [(''a'', JNum 2), (''b'', JNum 3)]] ! 1))
   \<and> map_option (map df_name)
        (inferFields exampleString (\<lambda>s. False) [[(''a'', JNum 1)], [(''a'', JNum 2), (''b'', JNum 3)]])
       = Some [''a'']"
  by code_simp

text \<open>Three rows of the sample data: Category is nominal, Sales quantitative.\<close>

theorem inferFields_first_row_witness:
  "stringifies exampleString exampleStr
     (take 100 [[(''Category'', JStr ''A''), (''Sales'', JNum 120)],
                [(''Category'', JStr ''B''), (''Sales'', JNum 90)],
                [(''Category'', JStr ''A''), (''Sales'', JNull)]])
     (map fst [(''Category'', JStr ''A''), (''Sales'', JNum 120)])
   \<and> map_option (map (\<lambda>f. (df_name f, df_inferredType f)))
     (inferFields exampleString (\<lambda>s. False)
        [[(''Category'', JStr ''A''), (''Sales'', JNum 120)],
         [(''Category'', JStr ''B''), (''Sales'', JNum 90)],
         [(''Category'', JStr ''A''), (''Sales'', JNull)]])
   = Some [(''Category'', Nominal), (''Sales'', Quantitative)]"
proof -
  have h: "stringifies exampleString exampleStr
     (take 100 [[(''Category'', JStr ''A''), (''Sales'', JNum 120)],
                [(''Category'', JStr ''B''), (''Sales'', JNum 90)],
                [(''Category'', JStr ''A''), (''Sales'', JNull)]])
     (map fst [(''Category'', JStr ''A''), (''Sales'', JNum 120)])"
    by code_simp
  have t: "map (\<lambda>name. (name, typeBySpec exampleStr (\<lambda>s. False)
        (map (\<lambda>r. property r name)
          (take 100 [[(''Category'', JStr ''A''), (''Sales'', JNum 120)],
                [(''Category'', JStr ''B''), (''Sales'', JNum 90)],
                [(''Category'', JStr ''A''), (''Sales'', JNull)]]))))
      (map fst [(''Category'', JStr ''A''), (''Sales'', JNum 120)])
    = [(''Category'', Nominal), (''Sales'', Quantitative)]"
    by code_simp
  from inferFields_first_row[OF h, of "\<lambda>s. False"] t h show ?thesis by simp
qed

text \<open>
  Values that differ only in what they stringify to count as distinct: three distinct strings
  among four non-finite numbers are not fewer than half, so the field is nominal. A key that
  a row lacks reads as what the row inherits.
\<close>

lemma inferFieldType_non_finite:
  "inferFieldType exampleString (\<lambda>s. False)
     [JNonFinite NaN, JNonFinite PlusInfinity, JNonFinite MinusInfinity, JNonFinite NaN] = Some Nominal"
  by code_simp

lemma property_inherited:
  "property [(''a'', JNum 1)] ''constructor'' = JFunction ''Object''
   \<and> property [(''a'', JNum 1)] ''b'' = JUndefined"
  by code_simp

section \<open>Field-name resolution in the planner\<close>

lemma toLowerCase_Nil: "toLowerCase s = [] \<Longrightarrow> s = []"
  by (simp add: toLowerCase_def)

text \<open>
  Claim C4, as amended. The planner resolves a field name by three rules, the first success
  winning: the candidate itself when it is a known name; else the first known name equal to
  it up to case; else the first known name that contains it up to case, and nothing when
  there is none. There is no edit-distance rule.
\<close>

theorem resolveField_cascade:
  "(candidate \<in> set fieldNames \<longrightarrow> resolveField candidate fieldNames = Some candidate)
   \<and> (candidate \<notin> set fieldNames \<longrightarrow>
        find (\<lambda>f. toLowerCase f = toLowerCase candidate) fieldNames = Some f \<longrightarrow>
        resolveField candidate fieldNames = Some f)
   \<and> (candidate \<notin> set fieldNames \<longrightarrow>
        find (\<lambda>f. toLowerCase f = toLowerCase candidate) fieldNames = None \<longrightarrow>
        resolveField candidate fieldNames =
          find (\<lambda>f. includesStr (toLowerCase f) (toLowerCase candidate)) fieldNames)"
proof (intro conjI impI)
  assume "candidate \<in> set fieldNames"
  then show "resolveField candidate fieldNames = Some candidate" by (simp add: resolveField_def)
next
  assume c: "candidate \<notin> set fieldNames"
    and f: "find (\<lambda>f. toLowerCase f = toLowerCase candidate) fieldNames = Some f"
  from find_SomeD[OF f] have m: "f \<in> set fieldNames" "toLowerCase f = toLowerCase candidate" by simp_all
  have "f \<noteq> []"
  proof
    assume e: "f = []"
    with m(2) have "toLowerCase candidate = []" by (simp add: toLowerCase_def)
    then have "candidate = []" by (rule toLowerCase_Nil)
    with e m(1) c show False by simp
  qed
  then show "resolveField candidate fieldNames = Some f"
    using c f by (simp add: resolveField_def Let_def truthy_def)
next
  assume c: "candidate \<notin> set fieldNames"
    and f: "find (\<lambda>f. toLowerCase f = toLowerCase candidate) fieldNames = None"
  then show "resolveField candidate fieldNames =
          find (\<lambda>f. includesStr (toLowerCase f) (toLowerCase candidate)) fieldNames"
    by (simp add: resolveField_def Let_def truthy_def)
qed

text \<open>An exact, a case-insensitive and a containment match, and a candidate that nothing matches.\<close>

theorem resolveField_cascade_witness:
  "resolveField ''Sales'' [''Category'', ''Sales'', ''Region''] = Some ''Sales''
   \<and> resolveField ''sales'' [''Category'', ''Sales'', ''Region''] = Some ''Sales''
   \<and> resolveField ''reg'' [''Category'', ''Sales'', ''Region''] = Some ''Region''
   \<and> resolveField ''profit'' [''Category'', ''Sales'', ''Region''] = None"
proof -
  have a: "''Sales'' \<in> set [''Category'', ''Sales'', ''Region'']" by simp
  have b: "''sales'' \<notin> set [''Category'', ''Sales'', ''Region'']" by simp
  have b': "find (\<lambda>f. toLowerCase f = toLowerCase ''sales'') [''Category'', ''Sales'', ''Region''] = Some ''Sales''"
    by code_simp
  have c: "''reg'' \<notin> set [''Category'', ''Sales'', ''Region'']" by simp
  have c': "find (\<lambda>f. toLowerCase f = toLowerCase ''reg'') [''Category'', ''Sales'', ''Region''] = None"
    by code_simp
  have c'': "find (\<lambda>f. includesStr (toLowerCase f) (toLowerCase ''reg'')) [''Category'', ''Sales'', ''Region'']
      = Some ''Region''"
    by code_simp
  have d: "''profit'' \<notin> set [''Category'', ''Sales'', ''Region'']" by simp
  have d': "find (\<lambda>f. toLowerCase f = toLowerCase ''profit'') [''Category'', ''Sales'', ''Region''] = None"
    by code_simp
  have d'': "find (\<lambda>f. includesStr (toLowerCase f) (toLowerCase ''profit'')) [''Category'', ''Sales'', ''Region'']
      = None"
    by code_simp
  show ?thesis
    using resolveField_cascade[of "''Sales''" "[''Category'', ''Sales'', ''Region'']" "''Sales''"]
      resolveField_cascade[of "''sales''" "[''Category'', ''Sales'', ''Region'']" "''Sales''"]
      resolveField_cascade[of "''reg''" "[''Category'', ''Sales'', ''Region'']" "''Region''"]
      resolveField_cascade[of "''profit''" "[''Category'', ''Sales'', ''Region'']" "''Sales''"]
      a b b' c c' c'' d d' d''
    by simp
qed

text \<open>
  Claim C4 as stated fails: "salez" is within distance 3 of exactly one known name, Sales
  (distance 1), matches by no earlier rule, and is not resolved.
\<close>

theorem resolveField_no_edit_distance:
  "resolveField ''salez'' [''Category'', ''Sales'', ''Region''] = None
   \<and> filter (\<lambda>f. levenshteinDistance (toLowerCase ''salez'') (toLowerCase f) \<le> 3)
         [''Category'', ''Sales'', ''Region''] = [''Sales'']
   \<and> levenshteinDistance (toLowerCase ''salez'') (toLowerCase ''Sales'') = 1"
  by code_simp

end
